theory Spec2Isabelle
  imports Main
begin

section \<open>Read receipts: the model package\<close>

text \<open>
  The data types of \<^verbatim>\<open>model/post_read_receipt.go\<close>. Go's \<^verbatim>\<open>int64\<close> and \<^verbatim>\<open>int\<close>
  values (epoch milliseconds, counts) are only compared and copied by the code under
  study, never added or multiplied, so they are modelled as \<^typ>\<open>int\<close>. Record fields
  that several Go structs share (\<^verbatim>\<open>PostId\<close>, \<^verbatim>\<open>UserId\<close>, ...) keep their name in
  \<^verbatim>\<open>PostReadReceipt\<close> and carry a prefix in the other records.
\<close>

record PostReadReceipt =
  PostId :: string
  UserId :: string
  ChannelId :: string
  ReadAt :: int
  CreateAt :: int
  DeviceId :: string
  DeviceType :: string
  SessionId :: string

record PostReadReceiptInfo =
  info_PostId :: string
  info_ChannelId :: string
  ReadReceipts :: "PostReadReceipt list"
  UnreadUsers :: "string list option"
  TotalUsers :: int
  ReadCount :: int
  LastRead :: int
  FirstRead :: int
  PartiallyRead :: bool
  AllRead :: bool

record PostReadReceiptSummary =
  sum_PostId :: string
  sum_ChannelId :: string
  sum_ReadCount :: int
  TotalRecipients :: int
  LastUpdated :: int
  FirstReadAt :: int
  LastReadAt :: int

record ReadReceiptAuditLog =
  audit_Id :: string
  audit_UserId :: string
  audit_PostId :: string
  Action :: string
  Metadata :: "(string \<times> string) list"
  audit_CreateAt :: int

record PostReadReceiptBatch =
  PostIds :: "string list"
  batch_UserId :: string
  batch_ChannelId :: string
  batch_ReadAt :: int
  batch_DeviceId :: string

record ReadReceiptBatchRequest =
  req_PostIds :: "string list"
  req_ChannelId :: string
  req_ReadAt :: int
  req_DeviceId :: string

record UserReadReceiptSettings =
  ReceiptMode :: string
  ShowOthersReceipts :: string

datatype AppError = NewAppError string string string int

definition ReadReceiptActionPrivacyView :: string where
  "ReadReceiptActionPrivacyView = ''privacy_view''"

definition DeviceTypeDesktop :: string where
  "DeviceTypeDesktop = ''desktop''"

definition DeviceTypeMobile :: string where
  "DeviceTypeMobile = ''mobile''"

definition DeviceTypeWeb :: string where
  "DeviceTypeWeb = ''web''"

definition DeviceTypeUnknown :: string where
  "DeviceTypeUnknown = ''unknown''"

definition validDeviceTypes :: "string list" where
  "validDeviceTypes = [DeviceTypeDesktop, DeviceTypeMobile, DeviceTypeWeb, DeviceTypeUnknown]"

text \<open>
  \<^verbatim>\<open>PostReadReceipt.IsValid\<close>. \<^verbatim>\<open>IsValidId\<close> belongs to the surrounding platform
  and is a parameter. The checks run in the source's order and the first failing one
  decides the error; \<open>None\<close> is Go's \<^verbatim>\<open>nil\<close>.
\<close>

definition IsValid :: "(string \<Rightarrow> bool) \<Rightarrow> PostReadReceipt \<Rightarrow> AppError option" where
  "IsValid IsValidId r =
     (if \<not> IsValidId (PostId r) then
        Some (NewAppError ''PostReadReceipt.IsValid''
          ''model.post_read_receipt.is_valid.post_id.app_error'' [] 400)
      else if \<not> IsValidId (UserId r) then
        Some (NewAppError ''PostReadReceipt.IsValid''
          ''model.post_read_receipt.is_valid.user_id.app_error'' [] 400)
      else if \<not> IsValidId (ChannelId r) then
        Some (NewAppError ''PostReadReceipt.IsValid''
          ''model.post_read_receipt.is_valid.channel_id.app_error'' [] 400)
      else if ReadAt r = 0 then
        Some (NewAppError ''PostReadReceipt.IsValid''
          ''model.post_read_receipt.is_valid.read_at.app_error'' [] 400)
      else if CreateAt r = 0 then
        Some (NewAppError ''PostReadReceipt.IsValid''
          ''model.post_read_receipt.is_valid.create_at.app_error'' [] 400)
      else if DeviceType r \<noteq> [] \<and> \<not> List.member validDeviceTypes (DeviceType r) then
        Some (NewAppError ''PostReadReceipt.IsValid''
          ''model.post_read_receipt.is_valid.device_type.app_error'' [] 400)
      else None)"

text \<open>
  \<^verbatim>\<open>PostReadReceipt.PreSave\<close>; the argument \<open>now\<close> is what \<^verbatim>\<open>GetMillis()\<close> returns.
\<close>

definition PreSave :: "int \<Rightarrow> PostReadReceipt \<Rightarrow> PostReadReceipt" where
  "PreSave now r =
     (let r1 = (if CreateAt r = 0 then r\<lparr>CreateAt := now\<rparr> else r);
          r2 = (if ReadAt r1 = 0 then r1\<lparr>ReadAt := now\<rparr> else r1)
      in if DeviceType r2 = [] then r2\<lparr>DeviceType := DeviceTypeUnknown\<rparr> else r2)"

section \<open>The SQL store\<close>

text \<open>
  \<^verbatim>\<open>SqlPostReadReceiptStore\<close>: the three tables of the migration, and the two tables
  of the platform that \<^verbatim>\<open>GetReadReceiptInfo\<close> reads (\<^verbatim>\<open>Posts\<close> as pairs of post id
  and channel id, \<^verbatim>\<open>ChannelMembers\<close> as pairs of channel id and user id). A table is the
  list of its rows. Any statement sent to the database may fail; \<open>Fails\<close> says which
  statements do, so that every error return of the store is a branch of the model.
  Building the SQL text (\<^verbatim>\<open>ToSql\<close>) cannot fail for these fixed queries. A wrapped
  error carries the text the store wraps it with; the driver's own message is not known. The PostgreSQL
  and MySQL suffixes of each upsert name the same columns, so the driver is not modelled.
\<close>

datatype statement =
    StmtSaveReadReceipt string string
  | StmtSaveReadReceiptBatch
  | StmtGetReadReceipt string string
  | StmtGetReadReceiptsForPost string
  | StmtDeleteReadReceipt string string
  | StmtGetPostChannel string
  | StmtCountChannelMembers string
  | StmtGetReadReceiptSummary string
  | StmtUpdateReadReceiptSummary string
  | StmtSaveReadReceiptAuditLog string

datatype StoreError = ErrNotFound string string | ErrWrap string

fun Error :: "StoreError \<Rightarrow> string" where
  "Error (ErrNotFound resource ident) = resource @ '': '' @ ident"
| "Error (ErrWrap msg) = msg"

record SqlStore =
  PostReadReceipts :: "PostReadReceipt list"
  PostReadReceiptSummaryRows :: "PostReadReceiptSummary list"
  ReadReceiptAuditLogRows :: "ReadReceiptAuditLog list"
  Posts :: "(string \<times> string) list"
  ChannelMembers :: "(string \<times> string) list"
  Fails :: "statement \<Rightarrow> bool"

text \<open>
  \<^verbatim>\<open>INSERT ... ON CONFLICT (PostId, UserId) DO UPDATE SET ReadAt, CreateAt, DeviceId,
  DeviceType, SessionId\<close>: the row with the same key is updated in the five listed columns
  (its \<^verbatim>\<open>ChannelId\<close> stays); without such a row the new one is appended.
\<close>

fun upsertReceipt :: "PostReadReceipt \<Rightarrow> PostReadReceipt list \<Rightarrow> PostReadReceipt list" where
  "upsertReceipt r [] = [r]"
| "upsertReceipt r (x # xs) =
     (if PostId x = PostId r \<and> UserId x = UserId r
      then x\<lparr>ReadAt := ReadAt r, CreateAt := CreateAt r, DeviceId := DeviceId r,
             DeviceType := DeviceType r, SessionId := SessionId r\<rparr> # xs
      else x # upsertReceipt r xs)"

definition Store_SaveReadReceipt ::
  "SqlStore \<Rightarrow> int \<Rightarrow> PostReadReceipt \<Rightarrow> (StoreError + PostReadReceipt) \<times> SqlStore" where
  "Store_SaveReadReceipt s now receipt =
     (let r = PreSave now receipt in
      if Fails s (StmtSaveReadReceipt (PostId r) (UserId r))
      then (Inl (ErrWrap ''save_read_receipt''), s)
      else (Inr r, s\<lparr>PostReadReceipts := upsertReceipt r (PostReadReceipts s)\<rparr>))"

text \<open>\<^verbatim>\<open>strings.Contains\<close>.\<close>

fun HasPrefix :: "string \<Rightarrow> string \<Rightarrow> bool" where
  "HasPrefix s [] = True"
| "HasPrefix [] (p # ps) = False"
| "HasPrefix (c # cs) (p # ps) = (c = p \<and> HasPrefix cs ps)"

fun Contains :: "string \<Rightarrow> string \<Rightarrow> bool" where
  "Contains [] substr = (substr = [])"
| "Contains (c # cs) substr = (HasPrefix (c # cs) substr \<or> Contains cs substr)"

definition batchDeviceType :: "string \<Rightarrow> string" where
  "batchDeviceType deviceId =
     (if deviceId \<noteq> [] then
        (if Contains deviceId ''mobile'' then DeviceTypeMobile
         else if Contains deviceId ''desktop'' then DeviceTypeDesktop
         else DeviceTypeWeb)
      else DeviceTypeWeb)"

text \<open>
  The batch statement inserts one row per post id of the batch and, on a key conflict,
  updates \<^verbatim>\<open>ReadAt\<close> and \<^verbatim>\<open>CreateAt\<close> only. The rows are applied in order.
\<close>

fun upsertBatchRow :: "PostReadReceipt \<Rightarrow> PostReadReceipt list \<Rightarrow> PostReadReceipt list" where
  "upsertBatchRow r [] = [r]"
| "upsertBatchRow r (x # xs) =
     (if PostId x = PostId r \<and> UserId x = UserId r
      then x\<lparr>ReadAt := ReadAt r, CreateAt := CreateAt r\<rparr> # xs
      else x # upsertBatchRow r xs)"

definition batchRow :: "PostReadReceiptBatch \<Rightarrow> int \<Rightarrow> string \<Rightarrow> PostReadReceipt" where
  "batchRow batch createAt postId =
     \<lparr>PostId = postId, UserId = batch_UserId batch, ChannelId = batch_ChannelId batch,
      ReadAt = batch_ReadAt batch, CreateAt = createAt, DeviceId = batch_DeviceId batch,
      DeviceType = batchDeviceType (batch_DeviceId batch), SessionId = []\<rparr>"

definition Store_SaveReadReceiptBatch ::
  "SqlStore \<Rightarrow> int \<Rightarrow> PostReadReceiptBatch \<Rightarrow> StoreError option \<times> SqlStore" where
  "Store_SaveReadReceiptBatch s now batch =
     (if PostIds batch = [] then (None, s)
      else if Fails s StmtSaveReadReceiptBatch
      then (Some (ErrWrap ''save_read_receipt_batch''), s)
      else (None, s\<lparr>PostReadReceipts :=
              foldl (\<lambda>rows postId. upsertBatchRow (batchRow batch now postId) rows)
                (PostReadReceipts s) (PostIds batch)\<rparr>))"

definition Store_GetReadReceipt ::
  "SqlStore \<Rightarrow> string \<Rightarrow> string \<Rightarrow> StoreError + PostReadReceipt" where
  "Store_GetReadReceipt s postID userID =
     (if Fails s (StmtGetReadReceipt postID userID)
      then Inl (ErrWrap (''get_read_receipt postId='' @ postID @ '' userId='' @ userID))
      else case find (\<lambda>r. PostId r = postID \<and> UserId r = userID) (PostReadReceipts s) of
             None \<Rightarrow> Inl (ErrNotFound ''PostReadReceipt''
                            (''postId='' @ postID @ '', userId='' @ userID))
           | Some r \<Rightarrow> Inr r)"

text \<open>
  \<^verbatim>\<open>ORDER BY ReadAt DESC\<close>: the rows of the post, latest first. SQL leaves the order of
  rows with equal \<^verbatim>\<open>ReadAt\<close> open; the model keeps them in table order.
\<close>

definition Store_GetReadReceiptsForPost ::
  "SqlStore \<Rightarrow> string \<Rightarrow> StoreError + PostReadReceipt list" where
  "Store_GetReadReceiptsForPost s postID =
     (if Fails s (StmtGetReadReceiptsForPost postID)
      then Inl (ErrWrap (''get_read_receipts_for_post postId='' @ postID))
      else Inr (sort_key (\<lambda>r. - ReadAt r) (filter (\<lambda>r. PostId r = postID) (PostReadReceipts s))))"

definition Store_DeleteReadReceipt :: "SqlStore \<Rightarrow> string \<Rightarrow> string \<Rightarrow> StoreError option \<times> SqlStore" where
  "Store_DeleteReadReceipt s postID userID =
     (if Fails s (StmtDeleteReadReceipt postID userID)
      then (Some (ErrWrap (''delete_read_receipt postId='' @ postID @ '' userId='' @ userID)), s)
      else (None, s\<lparr>PostReadReceipts :=
              filter (\<lambda>r. \<not> (PostId r = postID \<and> UserId r = userID)) (PostReadReceipts s)\<rparr>))"

text \<open>
  \<^verbatim>\<open>GetReadReceiptInfo\<close>. Reading the post's channel fails when the post has no row
  (\<^verbatim>\<open>sql.ErrNoRows\<close> is wrapped like any other error there).
\<close>

definition Store_GetReadReceiptInfo :: "SqlStore \<Rightarrow> string \<Rightarrow> StoreError + PostReadReceiptInfo" where
  "Store_GetReadReceiptInfo s postID =
     (case Store_GetReadReceiptsForPost s postID of
        Inl err \<Rightarrow> Inl err
      | Inr receipts \<Rightarrow>
          (if Fails s (StmtGetPostChannel postID)
           then Inl (ErrWrap (''get_read_receipt_info_post postId='' @ postID))
           else case map_of (Posts s) postID of
             None \<Rightarrow> Inl (ErrWrap (''get_read_receipt_info_post postId='' @ postID))
           | Some channelId \<Rightarrow>
               (if Fails s (StmtCountChannelMembers channelId)
                then Inl (ErrWrap (''get_read_receipt_info_members channelId='' @ channelId))
                else
                  let totalUsers = int (length (filter (\<lambda>m. fst m = channelId) (ChannelMembers s)));
                      readCount = int (length receipts);
                      allRead = (readCount \<ge> totalUsers)
                  in Inr \<lparr>info_PostId = postID, info_ChannelId = channelId,
                          ReadReceipts = receipts,
                          UnreadUsers = (if \<not> allRead then Some [] else None),
                          TotalUsers = totalUsers,
                          ReadCount = readCount,
                          LastRead = (if receipts \<noteq> [] then ReadAt (hd receipts) else 0),
                          FirstRead = (if receipts \<noteq> [] then ReadAt (last receipts) else 0),
                          PartiallyRead = (readCount > 0 \<and> readCount < totalUsers),
                          AllRead = allRead\<rparr>)))"

definition Store_GetReadReceiptSummary ::
  "SqlStore \<Rightarrow> string \<Rightarrow> StoreError + PostReadReceiptSummary" where
  "Store_GetReadReceiptSummary s postID =
     (if Fails s (StmtGetReadReceiptSummary postID)
      then Inl (ErrWrap (''get_read_receipt_summary postId='' @ postID))
      else case find (\<lambda>x. sum_PostId x = postID) (PostReadReceiptSummaryRows s) of
             None \<Rightarrow> Inl (ErrNotFound ''PostReadReceiptSummary'' postID)
           | Some x \<Rightarrow> Inr x)"

text \<open>
  \<^verbatim>\<open>INSERT ... ON CONFLICT (PostId) DO UPDATE SET ReadCount, TotalRecipients,
  LastUpdated, FirstReadAt, LastReadAt\<close>.
\<close>

fun upsertSummary ::
  "PostReadReceiptSummary \<Rightarrow> PostReadReceiptSummary list \<Rightarrow> PostReadReceiptSummary list" where
  "upsertSummary x [] = [x]"
| "upsertSummary x (y # ys) =
     (if sum_PostId y = sum_PostId x
      then y\<lparr>sum_ReadCount := sum_ReadCount x, TotalRecipients := TotalRecipients x,
             LastUpdated := LastUpdated x, FirstReadAt := FirstReadAt x,
             LastReadAt := LastReadAt x\<rparr> # ys
      else y # upsertSummary x ys)"

definition Store_UpdateReadReceiptSummary ::
  "SqlStore \<Rightarrow> PostReadReceiptSummary \<Rightarrow> StoreError option \<times> SqlStore" where
  "Store_UpdateReadReceiptSummary s summary =
     (if Fails s (StmtUpdateReadReceiptSummary (sum_PostId summary))
      then (Some (ErrWrap (''update_read_receipt_summary postId='' @ sum_PostId summary)), s)
      else (None, s\<lparr>PostReadReceiptSummaryRows :=
              upsertSummary summary (PostReadReceiptSummaryRows s)\<rparr>))"

definition Store_SaveReadReceiptAuditLog ::
  "SqlStore \<Rightarrow> ReadReceiptAuditLog \<Rightarrow> StoreError option \<times> SqlStore" where
  "Store_SaveReadReceiptAuditLog s audit =
     (if Fails s (StmtSaveReadReceiptAuditLog (audit_Id audit))
      then (Some (ErrWrap ''save_read_receipt_audit_log''), s)
      else (None, s\<lparr>ReadReceiptAuditLogRows := ReadReceiptAuditLogRows s @ [audit]\<rparr>))"

section \<open>The application layer\<close>

text \<open>
  Modelled from the spec: the platform's \<^verbatim>\<open>Post\<close>, \<^verbatim>\<open>Channel\<close>, \<^verbatim>\<open>ChannelMember\<close> and
  \<^verbatim>\<open>Preference\<close> types and its channel-type constants are declared outside the files
  under study. The records hold the fields the read-receipt code reads; the channel types
  are the four the spec names (direct and group conversations, open and private team
  channels) and one more for any other value.
\<close>

datatype ChannelType =
  ChannelTypeOpen | ChannelTypePrivate | ChannelTypeDirect | ChannelTypeGroup | ChannelTypeOther

record Post =
  post_Id :: string
  post_ChannelId :: string
  post_UserId :: string
  post_CreateAt :: int

record Channel =
  channel_Id :: string
  channel_Type :: ChannelType

record ChannelMember =
  member_UserId :: string
  LastViewedAt :: int

record Preference =
  pref_Category :: string
  pref_Name :: string
  pref_Value :: string

text \<open>
  What \<^verbatim>\<open>App\<close> gives the read-receipt code besides the store: the four service settings,
  the platform calls it makes (each returns a value or an \<^verbatim>\<open>AppError\<close>), the clock
  \<^verbatim>\<open>GetMillis\<close> and the id generator \<^verbatim>\<open>NewId\<close> (one value per operation), and the
  platform's \<^verbatim>\<open>IsValidId\<close> and string constants, which are declared outside the files
  under study and therefore left as parameters.
\<close>

record App =
  EnableReadReceipts :: bool
  ReadReceiptsEnableTeamChannels :: bool
  ReadReceiptsDefaultSetting :: string
  ReadReceiptsAllowPrivacyDeletion :: bool
  GetSinglePost :: "string \<Rightarrow> AppError + Post"
  GetChannel :: "string \<Rightarrow> AppError + Channel"
  GetPostsByIds :: "string list \<Rightarrow> AppError + Post list"
  GetPreferencesForUser :: "string \<Rightarrow> AppError + Preference list"
  GetChannelMembers :: "string \<Rightarrow> nat \<Rightarrow> nat \<Rightarrow> AppError + ChannelMember list"
  GetPostsForChannel :: "string \<Rightarrow> nat \<Rightarrow> nat \<Rightarrow> AppError + Post list"
  GetMillis :: int
  NewId :: string
  IsValidId :: "string \<Rightarrow> bool"
  ReadReceiptModeDisabled :: string
  ReadReceiptVisibilityAll :: string
  ReadReceiptVisibilityNone :: string
  PreferenceCategoryReadReceipts :: string

text \<open>
  The channel-type test that every operation repeats: direct and group channels always,
  team channels only under \<^verbatim>\<open>ReadReceiptsEnableTeamChannels\<close>.
\<close>

definition allowedChannelType :: "App \<Rightarrow> Channel \<Rightarrow> bool" where
  "allowedChannelType a channel =
     (let allowed = (channel_Type channel = ChannelTypeDirect \<or> channel_Type channel = ChannelTypeGroup)
      in if \<not> allowed \<and> ReadReceiptsEnableTeamChannels a
         then (channel_Type channel = ChannelTypeOpen \<or> channel_Type channel = ChannelTypePrivate)
         else allowed)"

fun applyPreferences :: "App \<Rightarrow> Preference list \<Rightarrow> UserReadReceiptSettings \<Rightarrow> UserReadReceiptSettings" where
  "applyPreferences a [] settings = settings"
| "applyPreferences a (pref # preferences) settings =
     applyPreferences a preferences
       (if pref_Category pref = PreferenceCategoryReadReceipts a then
          (if pref_Name pref = ''receipt_mode'' then settings\<lparr>ReceiptMode := pref_Value pref\<rparr>
           else if pref_Name pref = ''show_others_receipts''
           then settings\<lparr>ShowOthersReceipts := pref_Value pref\<rparr>
           else settings)
        else settings)"

definition GetUserReadReceiptSettings :: "App \<Rightarrow> string \<Rightarrow> AppError + UserReadReceiptSettings" where
  "GetUserReadReceiptSettings a userId =
     (case GetPreferencesForUser a userId of
        Inl err \<Rightarrow> Inl err
      | Inr preferences \<Rightarrow>
          Inr (applyPreferences a preferences
                 \<lparr>ReceiptMode = ReadReceiptsDefaultSetting a,
                  ShowOthersReceipts = ReadReceiptVisibilityAll a\<rparr>))"

definition DetectDeviceType :: "string \<Rightarrow> string" where
  "DetectDeviceType deviceId = (if deviceId = [] then DeviceTypeUnknown else DeviceTypeWeb)"

text \<open>
  \<^verbatim>\<open>SaveReadReceiptForPost\<close>. The struct literal leaves \<^verbatim>\<open>CreateAt\<close> and
  \<^verbatim>\<open>SessionId\<close> at Go's zero values. Logging and the websocket event do not touch the
  store or the returned value and are left out; the summary refresh that the function
  starts as a goroutine on success is the separate step
  \<open>App_UpdateReadReceiptSummaryAsync\<close> below.
\<close>

definition App_SaveReadReceiptForPost ::
  "App \<Rightarrow> SqlStore \<Rightarrow> string \<Rightarrow> string \<Rightarrow> int \<Rightarrow> string \<Rightarrow> (AppError + PostReadReceipt) \<times> SqlStore" where
  "App_SaveReadReceiptForPost a s userId postId readAt deviceId =
     (if \<not> EnableReadReceipts a then
        (Inl (NewAppError ''SaveReadReceiptForPost''
               ''app.post.read_receipt.disabled.app_error'' [] 501), s)
      else case GetSinglePost a postId of
        Inl err \<Rightarrow> (Inl err, s)
      | Inr post \<Rightarrow>
       (case GetChannel a (post_ChannelId post) of
          Inl err \<Rightarrow> (Inl err, s)
        | Inr channel \<Rightarrow>
            if \<not> allowedChannelType a channel then
              (Inl (NewAppError ''SaveReadReceiptForPost''
                     ''app.post.read_receipt.channel_type.app_error'' [] 400), s)
            else case GetUserReadReceiptSettings a userId of
              Inl err \<Rightarrow> (Inl err, s)
            | Inr userSettings \<Rightarrow>
                if ReceiptMode userSettings = ReadReceiptModeDisabled a then
                  (Inl (NewAppError ''SaveReadReceiptForPost''
                         ''app.post.read_receipt.user_disabled.app_error'' [] 403), s)
                else
                  let receipt = \<lparr>PostId = postId, UserId = userId,
                                 ChannelId = post_ChannelId post, ReadAt = readAt, CreateAt = 0,
                                 DeviceId = deviceId, DeviceType = DetectDeviceType deviceId,
                                 SessionId = []\<rparr>
                  in case IsValid (IsValidId a) receipt of
                       Some validationErr \<Rightarrow> (Inl validationErr, s)
                     | None \<Rightarrow>
                        (case Store_SaveReadReceipt s (GetMillis a) receipt of
                           (Inl err, s') \<Rightarrow>
                             (Inl (NewAppError ''SaveReadReceiptForPost''
                                    ''app.post.read_receipt.save.app_error'' (Error err) 500), s')
                         | (Inr savedReceipt, s') \<Rightarrow> (Inr savedReceipt, s'))))"

text \<open>
  The loop of \<^verbatim>\<open>SaveReadReceiptBatch\<close> over the resolved posts. \<open>channelIds\<close> is the
  map of channels already found eligible, kept as the list of its keys.
  \<open>checkBatchChannel\<close> is the first half of the loop body: \<open>None\<close> stands for
  \<^verbatim>\<open>continue\<close>, \<open>Some\<close> carries the map after the body's update.
\<close>

definition checkBatchChannel :: "App \<Rightarrow> string list \<Rightarrow> Post \<Rightarrow> string list option" where
  "checkBatchChannel a channelIds post =
     (if \<not> List.member channelIds (post_ChannelId post) then
        (case GetChannel a (post_ChannelId post) of
           Inl channelErr \<Rightarrow> None
         | Inr channel \<Rightarrow>
             if \<not> allowedChannelType a channel then None
             else Some (post_ChannelId post # channelIds))
      else Some channelIds)"

definition batchReceipt :: "PostReadReceiptBatch \<Rightarrow> string \<Rightarrow> Post \<Rightarrow> PostReadReceipt" where
  "batchReceipt batch userId post =
     \<lparr>PostId = post_Id post, UserId = userId, ChannelId = post_ChannelId post,
      ReadAt = batch_ReadAt batch, CreateAt = 0, DeviceId = batch_DeviceId batch,
      DeviceType = DetectDeviceType (batch_DeviceId batch), SessionId = []\<rparr>"

fun validateBatch ::
  "App \<Rightarrow> PostReadReceiptBatch \<Rightarrow> string \<Rightarrow> Post list \<Rightarrow> string list \<Rightarrow>
   PostReadReceipt list \<Rightarrow> PostReadReceipt list" where
  "validateBatch a batch userId [] channelIds validatedReceipts = validatedReceipts"
| "validateBatch a batch userId (post # posts) channelIds validatedReceipts =
     (case checkBatchChannel a channelIds post of
        None \<Rightarrow> validateBatch a batch userId posts channelIds validatedReceipts
      | Some channelIds' \<Rightarrow>
          validateBatch a batch userId posts channelIds'
            (if IsValid (IsValidId a) (batchReceipt batch userId post) = None
             then validatedReceipts @ [batchReceipt batch userId post]
             else validatedReceipts))"

definition App_SaveReadReceiptBatch ::
  "App \<Rightarrow> SqlStore \<Rightarrow> string \<Rightarrow> ReadReceiptBatchRequest \<Rightarrow>
   (AppError + PostReadReceipt list) \<times> SqlStore" where
  "App_SaveReadReceiptBatch a s userId batchRequest =
     (if \<not> EnableReadReceipts a then
        (Inl (NewAppError ''SaveReadReceiptBatch''
               ''app.post.read_receipt.disabled.app_error'' [] 501), s)
      else case GetUserReadReceiptSettings a userId of
        Inl err \<Rightarrow> (Inl err, s)
      | Inr userSettings \<Rightarrow>
          if ReceiptMode userSettings = ReadReceiptModeDisabled a then
            (Inl (NewAppError ''SaveReadReceiptBatch''
                   ''app.post.read_receipt.user_disabled.app_error'' [] 403), s)
          else
            let batch0 = \<lparr>PostIds = req_PostIds batchRequest, batch_UserId = userId,
                          batch_ChannelId = req_ChannelId batchRequest,
                          batch_ReadAt = req_ReadAt batchRequest,
                          batch_DeviceId = req_DeviceId batchRequest\<rparr>;
                batch = (if batch_ReadAt batch0 = 0 then batch0\<lparr>batch_ReadAt := GetMillis a\<rparr>
                         else batch0)
            in case GetPostsByIds a (PostIds batch) of
                 Inl err \<Rightarrow> (Inl err, s)
               | Inr posts \<Rightarrow>
                   let validatedReceipts = validateBatch a batch userId posts [] []
                   in case Store_SaveReadReceiptBatch s (GetMillis a) batch of
                        (Some err, s') \<Rightarrow>
                          (Inl (NewAppError ''SaveReadReceiptBatch''
                                 ''app.post.read_receipt.batch_save.app_error'' (Error err) 500), s')
                      | (None, s') \<Rightarrow> (Inr validatedReceipts, s'))"

text \<open>
  \<^verbatim>\<open>GetReadReceiptInfoForPost\<close>. The privacy filter is the loop of step 4, with the
  list being built as accumulator. The function only reads, so it returns no store. Its
  \<^verbatim>\<open>includeDeleted\<close> argument is never used by the source and is left out.
\<close>

fun filterOwnReceipts ::
  "string \<Rightarrow> PostReadReceipt list \<Rightarrow> PostReadReceipt list \<Rightarrow> PostReadReceipt list" where
  "filterOwnReceipts requestingUserId [] filteredReceipts = filteredReceipts"
| "filterOwnReceipts requestingUserId (receipt # receipts) filteredReceipts =
     filterOwnReceipts requestingUserId receipts
       (if UserId receipt = requestingUserId then filteredReceipts @ [receipt]
        else filteredReceipts)"

definition App_GetReadReceiptInfoForPost ::
  "App \<Rightarrow> SqlStore \<Rightarrow> string \<Rightarrow> string \<Rightarrow> AppError + PostReadReceiptInfo" where
  "App_GetReadReceiptInfoForPost a s postId requestingUserId =
     (if \<not> EnableReadReceipts a then
        Inl (NewAppError ''GetReadReceiptInfoForPost''
              ''app.post.read_receipt.disabled.app_error'' [] 501)
      else case GetUserReadReceiptSettings a requestingUserId of
        Inl err \<Rightarrow> Inl err
      | Inr userSettings \<Rightarrow>
         (case Store_GetReadReceiptInfo s postId of
            Inl err \<Rightarrow>
              Inl (NewAppError ''GetReadReceiptInfoForPost''
                    ''app.post.read_receipt.get_info.app_error'' (Error err) 500)
          | Inr info \<Rightarrow>
              if ShowOthersReceipts userSettings = ReadReceiptVisibilityNone a then
                let filteredReceipts = filterOwnReceipts requestingUserId (ReadReceipts info) []
                in Inr (info\<lparr>ReadReceipts := filteredReceipts,
                              ReadCount := int (length filteredReceipts)\<rparr>)
              else Inr info))"

text \<open>
  \<^verbatim>\<open>DeleteReadReceiptForPost\<close>. The result of writing the audit entry is dropped by the
  source, so a failed audit write still ends in \<^verbatim>\<open>nil\<close>.
\<close>

definition App_DeleteReadReceiptForPost ::
  "App \<Rightarrow> SqlStore \<Rightarrow> string \<Rightarrow> string \<Rightarrow> AppError option \<times> SqlStore" where
  "App_DeleteReadReceiptForPost a s userId postId =
     (if \<not> EnableReadReceipts a then
        (Some (NewAppError ''DeleteReadReceiptForPost''
                ''app.post.read_receipt.disabled.app_error'' [] 501), s)
      else if \<not> ReadReceiptsAllowPrivacyDeletion a then
        (Some (NewAppError ''DeleteReadReceiptForPost''
                ''app.post.read_receipt.privacy_deletion_disabled.app_error'' [] 403), s)
      else case Store_DeleteReadReceipt s postId userId of
        (Some err, s') \<Rightarrow>
          (Some (NewAppError ''DeleteReadReceiptForPost''
                  ''app.post.read_receipt.delete.app_error'' (Error err) 500), s')
      | (None, s') \<Rightarrow>
          let audit = \<lparr>audit_Id = NewId a, audit_UserId = userId, audit_PostId = postId,
                       Action = ReadReceiptActionPrivacyView,
                       Metadata = [(''action'', ''delete_receipt''),
                                   (''reason'', ''user_privacy_request'')],
                       audit_CreateAt = GetMillis a\<rparr>
          in (None, snd (Store_SaveReadReceiptAuditLog s' audit)))"

text \<open>
  The body of the goroutine of \<^verbatim>\<open>UpdateReadReceiptSummaryAsync\<close>: it returns nothing,
  so the model returns the store it leaves. The \<^verbatim>\<open>channelId\<close> argument is not used by
  the source.
\<close>

definition App_UpdateReadReceiptSummaryAsync :: "App \<Rightarrow> SqlStore \<Rightarrow> string \<Rightarrow> string \<Rightarrow> SqlStore" where
  "App_UpdateReadReceiptSummaryAsync a s channelId postId =
     (case Store_GetReadReceiptSummary s postId of
        Inl err \<Rightarrow> s
      | Inr summary \<Rightarrow>
          snd (Store_UpdateReadReceiptSummary s (summary\<lparr>LastUpdated := GetMillis a\<rparr>)))"

text \<open>
  \<^verbatim>\<open>BackfillReadReceiptsForChannel\<close>: the inner loop over the posts, the outer loop over
  the members (both extend \<^verbatim>\<open>receiptsToCreate\<close>), and the loop that saves. The posts
  arrive as a Go map and are visited in some order; the model takes them as a list.
\<close>

definition backfillReceipt :: "string \<Rightarrow> ChannelMember \<Rightarrow> Post \<Rightarrow> PostReadReceipt" where
  "backfillReceipt channelId member post =
     \<lparr>PostId = post_Id post, UserId = member_UserId member, ChannelId = channelId,
      ReadAt = LastViewedAt member, CreateAt = 0, DeviceId = ''backfill'',
      DeviceType = ''backfill'', SessionId = []\<rparr>"

fun backfillPosts ::
  "SqlStore \<Rightarrow> string \<Rightarrow> ChannelMember \<Rightarrow> Post list \<Rightarrow> PostReadReceipt list \<Rightarrow>
   PostReadReceipt list" where
  "backfillPosts s channelId member [] receiptsToCreate = receiptsToCreate"
| "backfillPosts s channelId member (post # posts) receiptsToCreate =
     backfillPosts s channelId member posts
       (if post_CreateAt post > LastViewedAt member then receiptsToCreate
        else if post_UserId post = member_UserId member then receiptsToCreate
        else case Store_GetReadReceipt s (post_Id post) (member_UserId member) of
               Inr existing \<Rightarrow> receiptsToCreate
             | Inl existErr \<Rightarrow> receiptsToCreate @ [backfillReceipt channelId member post])"

fun backfillMembers ::
  "SqlStore \<Rightarrow> string \<Rightarrow> ChannelMember list \<Rightarrow> Post list \<Rightarrow> PostReadReceipt list \<Rightarrow>
   PostReadReceipt list" where
  "backfillMembers s channelId [] posts receiptsToCreate = receiptsToCreate"
| "backfillMembers s channelId (member # members) posts receiptsToCreate =
     backfillMembers s channelId members posts
       (if LastViewedAt member = 0 then receiptsToCreate
        else backfillPosts s channelId member posts receiptsToCreate)"

fun saveBackfill :: "SqlStore \<Rightarrow> int \<Rightarrow> PostReadReceipt list \<Rightarrow> SqlStore" where
  "saveBackfill s now [] = s"
| "saveBackfill s now (receipt # receipts) =
     saveBackfill (snd (Store_SaveReadReceipt s now receipt)) now receipts"

definition App_BackfillReadReceiptsForChannel ::
  "App \<Rightarrow> SqlStore \<Rightarrow> string \<Rightarrow> AppError option \<times> SqlStore" where
  "App_BackfillReadReceiptsForChannel a s channelId =
     (if \<not> EnableReadReceipts a then
        (Some (NewAppError ''BackfillReadReceiptsForChannel''
                ''app.post.read_receipt.disabled.app_error'' [] 501), s)
      else case GetChannel a channelId of
        Inl err \<Rightarrow> (Some err, s)
      | Inr channel \<Rightarrow>
          if \<not> allowedChannelType a channel then
            (Some (NewAppError ''BackfillReadReceiptsForChannel''
                    ''app.post.read_receipt.channel_type.app_error'' [] 400), s)
          else case GetChannelMembers a channelId 0 200 of
            Inl err \<Rightarrow> (Some err, s)
          | Inr members \<Rightarrow>
             (case GetPostsForChannel a channelId 0 60 of
                Inl err \<Rightarrow> (Some err, s)
              | Inr posts \<Rightarrow>
                  (None, saveBackfill s (GetMillis a)
                           (backfillMembers s channelId members posts []))))"

section \<open>The primary key and sample data\<close>

text \<open>
  The migration declares \<^verbatim>\<open>PRIMARY KEY (PostId, UserId)\<close> on \<^verbatim>\<open>PostReadReceipts\<close>:
  no two rows of the table share their key.
\<close>

definition receiptKey :: "PostReadReceipt \<Rightarrow> string \<times> string" where
  "receiptKey r = (PostId r, UserId r)"

definition primaryKey :: "PostReadReceipt list \<Rightarrow> bool" where
  "primaryKey rows = distinct (map receiptKey rows)"

text \<open>
  A small installation for concrete runs: the direct-message channel \<open>c1\<close> of the users
  \<open>u1\<close> and \<open>u2\<close>, with three posts of \<open>u2\<close>, and the open team channel \<open>c2\<close> with
  one post. User \<open>u1\<close> last viewed \<open>c1\<close> at 500 and has set
  \<^verbatim>\<open>show_others_receipts\<close> to \<open>none\<close>.
\<close>

definition exPosts :: "Post list" where
  "exPosts =
     [\<lparr>post_Id = ''p1'', post_ChannelId = ''c1'', post_UserId = ''u2'', post_CreateAt = 400\<rparr>,
      \<lparr>post_Id = ''p2'', post_ChannelId = ''c1'', post_UserId = ''u2'', post_CreateAt = 600\<rparr>,
      \<lparr>post_Id = ''p3'', post_ChannelId = ''c2'', post_UserId = ''u2'', post_CreateAt = 300\<rparr>,
      \<lparr>post_Id = ''p4'', post_ChannelId = ''c1'', post_UserId = ''u2'', post_CreateAt = 450\<rparr>]"

definition exApp :: App where
  "exApp =
     \<lparr>EnableReadReceipts = True,
      ReadReceiptsEnableTeamChannels = False,
      ReadReceiptsDefaultSetting = ''enabled'',
      ReadReceiptsAllowPrivacyDeletion = True,
      GetSinglePost = (\<lambda>postId.
        case find (\<lambda>p. post_Id p = postId) exPosts of
          None \<Rightarrow> Inl (NewAppError ''GetSinglePost'' ''app.post.get.app_error'' [] 404)
        | Some p \<Rightarrow> Inr p),
      GetChannel = (\<lambda>channelId.
        if channelId = ''c1'' then Inr \<lparr>channel_Id = ''c1'', channel_Type = ChannelTypeDirect\<rparr>
        else if channelId = ''c2'' then Inr \<lparr>channel_Id = ''c2'', channel_Type = ChannelTypeOpen\<rparr>
        else Inl (NewAppError ''GetChannel'' ''app.channel.get.existing.app_error'' [] 404)),
      GetPostsByIds = (\<lambda>postIds. Inr (filter (\<lambda>p. List.member postIds (post_Id p)) exPosts)),
      GetPreferencesForUser = (\<lambda>userId.
        if userId = ''u1''
        then Inr [\<lparr>pref_Category = ''read_receipts'', pref_Name = ''show_others_receipts'',
                   pref_Value = ''none''\<rparr>]
        else Inr []),
      GetChannelMembers = (\<lambda>channelId page perPage.
        if channelId = ''c1''
        then Inr [\<lparr>member_UserId = ''u1'', LastViewedAt = 500\<rparr>,
                  \<lparr>member_UserId = ''u2'', LastViewedAt = 0\<rparr>]
        else Inr []),
      GetPostsForChannel = (\<lambda>channelId page perPage.
        Inr (filter (\<lambda>p. post_ChannelId p = channelId) exPosts)),
      GetMillis = 9000,
      NewId = ''a1'',
      IsValidId = (\<lambda>ident. ident \<noteq> []),
      ReadReceiptModeDisabled = ''disabled'',
      ReadReceiptVisibilityAll = ''all'',
      ReadReceiptVisibilityNone = ''none'',
      PreferenceCategoryReadReceipts = ''read_receipts''\<rparr>"

definition exStore :: SqlStore where
  "exStore =
     \<lparr>PostReadReceipts = [], PostReadReceiptSummaryRows = [], ReadReceiptAuditLogRows = [],
      Posts = [(''p1'', ''c1''), (''p2'', ''c1''), (''p3'', ''c2''), (''p4'', ''c1'')],
      ChannelMembers = [(''c1'', ''u1''), (''c1'', ''u2'')],
      Fails = (\<lambda>stmt. False)\<rparr>"

definition exReceipt :: "string \<Rightarrow> string \<Rightarrow> int \<Rightarrow> PostReadReceipt" where
  "exReceipt postId userId readAt =
     \<lparr>PostId = postId, UserId = userId, ChannelId = ''c1'', ReadAt = readAt, CreateAt = readAt,
      DeviceId = [], DeviceType = ''unknown'', SessionId = []\<rparr>"

text \<open>
  The same store after both users' receipts for \<open>p1\<close> were written, with a summary row
  for \<open>p1\<close> from before those writes.
\<close>

definition exSummary :: PostReadReceiptSummary where
  "exSummary =
     \<lparr>sum_PostId = ''p1'', sum_ChannelId = ''c1'', sum_ReadCount = 0, TotalRecipients = 2,
      LastUpdated = 100, FirstReadAt = 0, LastReadAt = 0\<rparr>"

definition exStoreRead :: SqlStore where
  "exStoreRead =
     exStore\<lparr>PostReadReceipts := [exReceipt ''p1'' ''u1'' 1000, exReceipt ''p1'' ''u2'' 2000],
             PostReadReceiptSummaryRows := [exSummary]\<rparr>"

text \<open>The empty store again, with a database that refuses to write the receipt of \<open>u1\<close> for \<open>p1\<close>.\<close>

definition exStoreFailing :: SqlStore where
  "exStoreFailing = exStore\<lparr>Fails := (\<lambda>stmt. stmt = StmtSaveReadReceipt ''p1'' ''u1'')\<rparr>"

text \<open>
  A batch request of \<open>u1\<close> for three posts: \<open>p1\<close> of the direct-message channel,
  \<open>p3\<close> of the open team channel, and \<open>p9\<close>, which does not exist. \<open>exBatchRow\<close> is the
  row the store's batch statement writes for a post id of this request.
\<close>

definition exBatchRequest :: ReadReceiptBatchRequest where
  "exBatchRequest =
     \<lparr>req_PostIds = [''p1'', ''p3'', ''p9''], req_ChannelId = ''c1'', req_ReadAt = 1000,
      req_DeviceId = []\<rparr>"

definition exBatchRow :: "string \<Rightarrow> PostReadReceipt" where
  "exBatchRow postId =
     \<lparr>PostId = postId, UserId = ''u1'', ChannelId = ''c1'', ReadAt = 1000, CreateAt = 9000,
      DeviceId = [], DeviceType = ''web'', SessionId = []\<rparr>"

text \<open>
  What the store reports about \<open>p1\<close> in \<open>exStoreRead\<close>, and what \<open>u1\<close>, who does not
  want to see the receipts of others, is shown.
\<close>

definition exInfoStored :: PostReadReceiptInfo where
  "exInfoStored =
     \<lparr>info_PostId = ''p1'', info_ChannelId = ''c1'',
      ReadReceipts = [exReceipt ''p1'' ''u2'' 2000, exReceipt ''p1'' ''u1'' 1000],
      UnreadUsers = None, TotalUsers = 2,
      ReadCount = 2, LastRead = 2000, FirstRead = 1000, PartiallyRead = False, AllRead = True\<rparr>"

definition exInfoFiltered :: PostReadReceiptInfo where
  "exInfoFiltered =
     \<lparr>info_PostId = ''p1'', info_ChannelId = ''c1'',
      ReadReceipts = [exReceipt ''p1'' ''u1'' 1000], UnreadUsers = None, TotalUsers = 2,
      ReadCount = 1, LastRead = 2000, FirstRead = 1000, PartiallyRead = False, AllRead = True\<rparr>"

text \<open>
  The members of \<open>c1\<close> as the platform lists them, and the receipt the backfill builds
  for \<open>u1\<close> and a post of \<open>c1\<close>.
\<close>

definition exMembers :: "ChannelMember list" where
  "exMembers = [\<lparr>member_UserId = ''u1'', LastViewedAt = 500\<rparr>,
                \<lparr>member_UserId = ''u2'', LastViewedAt = 0\<rparr>]"

definition exBackfill :: "string \<Rightarrow> PostReadReceipt" where
  "exBackfill postId =
     \<lparr>PostId = postId, UserId = ''u1'', ChannelId = ''c1'', ReadAt = 500, CreateAt = 0,
      DeviceId = ''backfill'', DeviceType = ''backfill'', SessionId = []\<rparr>"



text \<open>
  \<open>exStoreRead\<close> with a database that refuses to write the audit entry; and a store that
  holds the receipt of \<open>u1\<close> for \<open>p1\<close> while the lookup of exactly that receipt fails.
\<close>

definition exStoreAuditFailing :: SqlStore where
  "exStoreAuditFailing = exStoreRead\<lparr>Fails := (\<lambda>stmt. stmt = StmtSaveReadReceiptAuditLog ''a1'')\<rparr>"

definition exStoreLookupFailing :: SqlStore where
  "exStoreLookupFailing =
     exStore\<lparr>PostReadReceipts := [exReceipt ''p1'' ''u1'' 1000],
             Fails := (\<lambda>stmt. stmt = StmtGetReadReceipt ''p1'' ''u1'')\<rparr>"

section \<open>Properties of the store\<close>

lemma PreSave_key [simp]:
  "PostId (PreSave now r) = PostId r"
  "UserId (PreSave now r) = UserId r"
  "ChannelId (PreSave now r) = ChannelId r"
  by (simp_all add: PreSave_def Let_def)

lemma upsertReceipt_keys:
  "map receiptKey (upsertReceipt r xs) =
     (if receiptKey r \<in> set (map receiptKey xs) then map receiptKey xs
      else map receiptKey xs @ [receiptKey r])"
  by (induction xs) (auto simp: receiptKey_def)







section \<open>Marking one post as read\<close>

text \<open>
  \<^verbatim>\<open>SaveReadReceiptForPost\<close> validates the receipt it has just built, whose
  \<^verbatim>\<open>CreateAt\<close> is still 0: \<^verbatim>\<open>PreSave\<close>, which fills it in, runs later, inside the
  store. \<^verbatim>\<open>IsValid\<close> rejects a receipt with \<^verbatim>\<open>CreateAt\<close> 0, so no call returns a
  receipt, and none reaches the store.
\<close>

lemma IsValid_CreateAt_zero: "CreateAt r = 0 \<Longrightarrow> IsValid f r \<noteq> None"
  by (simp add: IsValid_def)

lemma SaveReadReceiptForPost_never_succeeds:
  "fst (App_SaveReadReceiptForPost a s userId postId readAt deviceId) \<noteq> Inr r"
  by (auto simp: App_SaveReadReceiptForPost_def Let_def IsValid_def
      split: sum.splits option.splits prod.splits)

lemma SaveReadReceiptForPost_store_unchanged:
  "snd (App_SaveReadReceiptForPost a s userId postId readAt deviceId) = s"
  by (auto simp: App_SaveReadReceiptForPost_def Let_def IsValid_def
      split: sum.splits option.splits prod.splits)

text \<open>
  C1. The claim: with the feature enabled, the post in a direct-message channel and the
  user not opted out, marking the post read at 1000 succeeds and returns the persisted
  receipt with \<^verbatim>\<open>ReadAt\<close> 1000, and a second call at 2000 overwrites that row. The code
  run on exactly such a call: user \<open>u1\<close> marks post \<open>p1\<close> of the direct-message channel
  \<open>c1\<close> read at 1000, every id is valid, the database is working. The call ends in the
  validation error for \<^verbatim>\<open>CreateAt\<close> and leaves the store as it was, without any row.
\<close>

theorem SaveReadReceiptForPost_rejects_direct_message_read:
  "App_SaveReadReceiptForPost exApp exStore ''u1'' ''p1'' 1000 ''dev'' =
     (Inl (NewAppError ''PostReadReceipt.IsValid''
            ''model.post_read_receipt.is_valid.create_at.app_error'' [] 400), exStore)"
  by (simp add: App_SaveReadReceiptForPost_def exApp_def exPosts_def allowedChannelType_def
      GetUserReadReceiptSettings_def IsValid_def DetectDeviceType_def DeviceTypeWeb_def
      DeviceTypeUnknown_def validDeviceTypes_def DeviceTypeDesktop_def DeviceTypeMobile_def
      Let_def)

section \<open>Marking a batch of posts as read\<close>

text \<open>
  The receipts built in the batch loop have \<^verbatim>\<open>CreateAt\<close> 0 as well, so none passes
  \<^verbatim>\<open>IsValid\<close> and the loop returns the list it started with.
\<close>

lemma batchReceipt_invalid: "IsValid f (batchReceipt batch userId post) \<noteq> None"
  by (simp add: IsValid_def batchReceipt_def)

lemma validateBatch_keeps:
  "validateBatch a batch userId posts channelIds validatedReceipts = validatedReceipts"
  by (induction posts arbitrary: channelIds validatedReceipts)
     (simp_all add: batchReceipt_invalid split: option.splits)

lemma SaveReadReceiptBatch_returns_empty:
  "App_SaveReadReceiptBatch a s userId req = (Inr receipts, s') \<Longrightarrow> receipts = []"
  by (auto simp: App_SaveReadReceiptBatch_def Let_def validateBatch_keeps
      split: if_splits sum.splits option.splits prod.splits)

text \<open>
  C3. The claim: after a successful batch call the receipts written to the store are
  exactly the surviving ones (post resolved, channel eligible, receipt valid), the
  returned list is that persisted set, and no receipt of a dropped post id is persisted.
  The code run on the request of \<open>u1\<close> for \<open>p1\<close> (direct-message channel), \<open>p3\<close> (open
  team channel, not eligible) and \<open>p9\<close> (no such post): the call succeeds and returns the
  empty list, and the store now holds a row for each of the three requested ids, all
  under the request's channel id. The store is handed the batch as requested, not the
  validated receipts.
\<close>

theorem SaveReadReceiptBatch_persists_dropped_posts:
  "App_SaveReadReceiptBatch exApp exStore ''u1'' exBatchRequest =
     (Inr [],
      exStore\<lparr>PostReadReceipts := [exBatchRow ''p1'', exBatchRow ''p3'', exBatchRow ''p9'']\<rparr>)"
  by (simp add: App_SaveReadReceiptBatch_def GetUserReadReceiptSettings_def validateBatch_keeps
      exBatchRequest_def exBatchRow_def Store_SaveReadReceiptBatch_def batchRow_def
      batchDeviceType_def DeviceTypeWeb_def Let_def exApp_def exStore_def)


section \<open>Reading the receipts of a post\<close>

lemma filterOwnReceipts_filter:
  "filterOwnReceipts viewer receipts acc = acc @ filter (\<lambda>r. UserId r = viewer) receipts"
  by (induction receipts arbitrary: acc) simp_all

lemma GetReadReceiptInfo_fields:
  assumes "Store_GetReadReceiptInfo s postId = Inr info0"
  shows "Store_GetReadReceiptsForPost s postId = Inr (ReadReceipts info0)"
    and "ReadCount info0 = int (length (ReadReceipts info0))"
    and "AllRead info0 = (ReadCount info0 \<ge> TotalUsers info0)"
    and "PartiallyRead info0 = (0 < ReadCount info0 \<and> ReadCount info0 < TotalUsers info0)"
    and "LastRead info0 = (if ReadReceipts info0 \<noteq> [] then ReadAt (hd (ReadReceipts info0)) else 0)"
    and "FirstRead info0 = (if ReadReceipts info0 \<noteq> [] then ReadAt (last (ReadReceipts info0)) else 0)"
  using assms
  by (auto simp: Store_GetReadReceiptInfo_def Let_def split: sum.splits if_splits option.splits)

lemma GetReadReceiptInfoForPost_cases:
  assumes "App_GetReadReceiptInfoForPost a s postId viewer = Inr info"
  shows "\<exists>settings info0.
           GetUserReadReceiptSettings a viewer = Inr settings \<and>
           Store_GetReadReceiptInfo s postId = Inr info0 \<and>
           info = (if ShowOthersReceipts settings = ReadReceiptVisibilityNone a
                   then info0\<lparr>ReadReceipts := filter (\<lambda>r. UserId r = viewer) (ReadReceipts info0),
                              ReadCount := int (length (filter (\<lambda>r. UserId r = viewer) (ReadReceipts info0)))\<rparr>
                   else info0)"
  using assms
  by (auto simp: App_GetReadReceiptInfoForPost_def Let_def filterOwnReceipts_filter
      split: sum.splits if_splits)

lemma exInfoStored_run: "Store_GetReadReceiptInfo exStoreRead ''p1'' = Inr exInfoStored"
  by (simp add: Store_GetReadReceiptInfo_def Store_GetReadReceiptsForPost_def exInfoStored_def
      exStoreRead_def exStore_def exReceipt_def Let_def)

lemma exApp_u1_settings:
  "GetUserReadReceiptSettings exApp ''u1'' = Inr \<lparr>ReceiptMode = ''enabled'', ShowOthersReceipts = ''none''\<rparr>"
  by (simp add: GetUserReadReceiptSettings_def exApp_def)

lemma exInfoFiltered_run:
  "App_GetReadReceiptInfoForPost exApp exStoreRead ''p1'' ''u1'' = Inr exInfoFiltered"
  by (simp add: App_GetReadReceiptInfoForPost_def GetUserReadReceiptSettings_def
      Store_GetReadReceiptInfo_def Store_GetReadReceiptsForPost_def exInfoFiltered_def
      exStoreRead_def exStore_def exReceipt_def Let_def exApp_def)

lemma exStoreRead_receipts:
  "Store_GetReadReceiptsForPost exStoreRead ''p1'' =
     Inr [exReceipt ''p1'' ''u2'' 2000, exReceipt ''p1'' ''u1'' 1000]"
  by (simp add: Store_GetReadReceiptsForPost_def exStoreRead_def exStore_def exReceipt_def)

text \<open>
  C5 as claimed: every info returned by \<^verbatim>\<open>GetReadReceiptInfoForPost\<close>, also after the
  privacy filter, has \<^verbatim>\<open>AllRead = (ReadCount >= TotalUsers)\<close>. It fails for \<open>u1\<close>
  asking about \<open>p1\<close>: both members have read the post, \<open>u1\<close> is shown the own receipt
  only, so the returned \<^verbatim>\<open>ReadCount\<close> is 1 of 2 users while \<^verbatim>\<open>AllRead\<close> is still true.
\<close>

theorem GetReadReceiptInfoForPost_filtered_flags_counterexample:
  "App_GetReadReceiptInfoForPost exApp exStoreRead ''p1'' ''u1'' = Inr exInfoFiltered \<and>
   ReadCount exInfoFiltered = 1 \<and> TotalUsers exInfoFiltered = 2 \<and>
   AllRead exInfoFiltered \<noteq> (ReadCount exInfoFiltered \<ge> TotalUsers exInfoFiltered)"
  using exInfoFiltered_run by (simp add: exInfoFiltered_def)

text \<open>
  C5, amended. In every info returned by \<^verbatim>\<open>GetReadReceiptInfoForPost\<close> the two flags
  are those of the number \<open>n\<close> of receipts stored for the post, before any filtering:
  \<^verbatim>\<open>AllRead\<close> is \<open>n \<ge> TotalUsers\<close> and \<^verbatim>\<open>PartiallyRead\<close> is \<open>0 < n < TotalUsers\<close>;
  they are never both true, and both are false only when \<open>n = 0\<close>. The returned
  \<^verbatim>\<open>ReadCount\<close> is \<open>n\<close> unless the viewer's setting hides the receipts of others;
  then the returned receipts are the viewer's own among the stored ones and
  \<^verbatim>\<open>ReadCount\<close> is their number, while the flags stay those of \<open>n\<close>.
\<close>

theorem GetReadReceiptInfoForPost_flags_of_stored_count:
  assumes "App_GetReadReceiptInfoForPost a s postId viewer = Inr info"
  shows "\<exists>receipts settings.
           Store_GetReadReceiptsForPost s postId = Inr receipts \<and>
           GetUserReadReceiptSettings a viewer = Inr settings \<and>
           AllRead info = (int (length receipts) \<ge> TotalUsers info) \<and>
           PartiallyRead info = (0 < length receipts \<and> int (length receipts) < TotalUsers info) \<and>
           \<not> (AllRead info \<and> PartiallyRead info) \<and>
           (\<not> AllRead info \<and> \<not> PartiallyRead info \<longrightarrow> receipts = []) \<and>
           (ShowOthersReceipts settings \<noteq> ReadReceiptVisibilityNone a \<longrightarrow>
              ReadReceipts info = receipts \<and> ReadCount info = int (length receipts)) \<and>
           (ShowOthersReceipts settings = ReadReceiptVisibilityNone a \<longrightarrow>
              ReadReceipts info = filter (\<lambda>r. UserId r = viewer) receipts \<and>
              ReadCount info = int (length (filter (\<lambda>r. UserId r = viewer) receipts)))"
proof -
  from GetReadReceiptInfoForPost_cases [OF assms] obtain settings info0 where
    st: "GetUserReadReceiptSettings a viewer = Inr settings" and
    i0: "Store_GetReadReceiptInfo s postId = Inr info0" and
    info: "info = (if ShowOthersReceipts settings = ReadReceiptVisibilityNone a
                   then info0\<lparr>ReadReceipts := filter (\<lambda>r. UserId r = viewer) (ReadReceipts info0),
                              ReadCount := int (length (filter (\<lambda>r. UserId r = viewer) (ReadReceipts info0)))\<rparr>
                   else info0)"
    by blast
  note f = GetReadReceiptInfo_fields [OF i0]
  have flags: "AllRead info = AllRead info0" "PartiallyRead info = PartiallyRead info0"
    "TotalUsers info = TotalUsers info0"
    by (simp_all add: info)
  have rc: "ShowOthersReceipts settings \<noteq> ReadReceiptVisibilityNone a \<Longrightarrow>
      ReadReceipts info = ReadReceipts info0 \<and> ReadCount info = ReadCount info0"
    by (simp add: info)
  have fc: "ShowOthersReceipts settings = ReadReceiptVisibilityNone a \<Longrightarrow>
      ReadReceipts info = filter (\<lambda>r. UserId r = viewer) (ReadReceipts info0) \<and>
      ReadCount info = int (length (filter (\<lambda>r. UserId r = viewer) (ReadReceipts info0)))"
    by (simp add: info)
  show ?thesis
    apply (rule exI [of _ "ReadReceipts info0"])
    apply (rule exI [of _ settings])
    using f st flags rc fc by auto
qed

theorem GetReadReceiptInfoForPost_flags_of_stored_count_witness:
  "App_GetReadReceiptInfoForPost exApp exStoreRead ''p1'' ''u1'' = Inr exInfoFiltered \<and>
   Store_GetReadReceiptsForPost exStoreRead ''p1'' =
     Inr [exReceipt ''p1'' ''u2'' 2000, exReceipt ''p1'' ''u1'' 1000] \<and>
   AllRead exInfoFiltered =
     (int (length [exReceipt ''p1'' ''u2'' 2000, exReceipt ''p1'' ''u1'' 1000])
        \<ge> TotalUsers exInfoFiltered) \<and>
   \<not> PartiallyRead exInfoFiltered \<and>
   ReadReceipts exInfoFiltered =
     filter (\<lambda>r. UserId r = ''u1'') [exReceipt ''p1'' ''u2'' 2000, exReceipt ''p1'' ''u1'' 1000] \<and>
   ReadCount exInfoFiltered =
     int (length (filter (\<lambda>r. UserId r = ''u1'')
       [exReceipt ''p1'' ''u2'' 2000, exReceipt ''p1'' ''u1'' 1000])) \<and>
   ReadCount exInfoFiltered = 1"
proof -
  from GetReadReceiptInfoForPost_flags_of_stored_count [OF exInfoFiltered_run]
  obtain receipts settings where
    r: "Store_GetReadReceiptsForPost exStoreRead ''p1'' = Inr receipts" and
    st: "GetUserReadReceiptSettings exApp ''u1'' = Inr settings" and
    ar: "AllRead exInfoFiltered = (int (length receipts) \<ge> TotalUsers exInfoFiltered)" and
    fc: "ShowOthersReceipts settings = ReadReceiptVisibilityNone exApp \<longrightarrow>
           ReadReceipts exInfoFiltered = filter (\<lambda>r. UserId r = ''u1'') receipts \<and>
           ReadCount exInfoFiltered = int (length (filter (\<lambda>r. UserId r = ''u1'') receipts))"
    by blast
  from r exStoreRead_receipts
  have receipts: "receipts = [exReceipt ''p1'' ''u2'' 2000, exReceipt ''p1'' ''u1'' 1000]"
    by simp
  from st exApp_u1_settings have "ShowOthersReceipts settings = ReadReceiptVisibilityNone exApp"
    by (auto simp: exApp_def)
  with fc ar receipts exInfoFiltered_run exStoreRead_receipts show ?thesis
    by (simp add: exInfoFiltered_def)
qed

lemma primaryKey_filter_key:
  "primaryKey rows \<Longrightarrow> length (filter (\<lambda>r. PostId r = p \<and> UserId r = u) rows) \<le> 1"
proof (induction rows)
  case Nil
  then show ?case by simp
next
  case (Cons x xs)
  show ?case
  proof (cases "PostId x = p \<and> UserId x = u")
    case True
    with Cons.prems have "\<forall>y\<in>set xs. \<not> (PostId y = p \<and> UserId y = u)"
      by (auto simp: primaryKey_def receiptKey_def image_iff)
    then have "filter (\<lambda>r. PostId r = p \<and> UserId r = u) xs = []"
      by (simp add: filter_empty_conv)
    with True show ?thesis by simp
  next
    case False
    with Cons show ?thesis by (auto simp: primaryKey_def)
  qed
qed

lemma distinct_users_filter:
  "distinct (map UserId receipts) \<Longrightarrow> length (filter (\<lambda>r. UserId r = viewer) receipts) \<le> 1"
proof (induction receipts)
  case Nil
  then show ?case by simp
next
  case (Cons x xs)
  show ?case
  proof (cases "UserId x = viewer")
    case True
    with Cons.prems have "\<forall>y\<in>set xs. UserId y \<noteq> viewer" by (auto simp: image_iff)
    then have "filter (\<lambda>r. UserId r = viewer) xs = []" by (simp add: filter_empty_conv)
    with True show ?thesis by simp
  next
    case False
    with Cons show ?thesis by simp
  qed
qed

lemma GetReadReceiptsForPost_own:
  assumes "Store_GetReadReceiptsForPost s postId = Inr receipts"
    and "primaryKey (PostReadReceipts s)"
  shows "length (filter (\<lambda>r. UserId r = viewer) receipts) \<le> 1"
proof -
  from assms(1) have "receipts = sort_key (\<lambda>r. - ReadAt r) (filter (\<lambda>r. PostId r = postId) (PostReadReceipts s))"
    by (simp add: Store_GetReadReceiptsForPost_def split: if_splits)
  then have "length (filter (\<lambda>r. UserId r = viewer) receipts) =
     length (filter (\<lambda>r. PostId r = postId \<and> UserId r = viewer) (PostReadReceipts s))"
    by (simp add: filter_sort)
  with primaryKey_filter_key [OF assms(2)] show ?thesis by simp
qed

text \<open>
  C6. The privacy filter for a viewer who has set \<^verbatim>\<open>show_others_receipts\<close> to none
  keeps, of any list of receipts (the empty one included), exactly those whose
  \<^verbatim>\<open>UserId\<close> is the viewer's, in their order; of receipts by distinct users it keeps at
  most one. \<^verbatim>\<open>GetReadReceiptInfoForPost\<close> returns for such a viewer the store's receipts
  of the post filtered this way, at most one when the table respects its primary key.
  The filter is a function of the list and the viewer, and the operation returns no
  store: there is nothing it could have changed.
\<close>

theorem privacy_filter_ShowNone:
  "filterOwnReceipts viewer receipts [] = filter (\<lambda>r. UserId r = viewer) receipts
   \<and> filterOwnReceipts viewer [] [] = []
   \<and> (distinct (map UserId receipts) \<longrightarrow> length (filterOwnReceipts viewer receipts []) \<le> 1)
   \<and> (EnableReadReceipts a \<and> GetUserReadReceiptSettings a viewer = Inr settings \<and>
      ShowOthersReceipts settings = ReadReceiptVisibilityNone a \<and>
      Store_GetReadReceiptInfo s postId = Inr info0 \<longrightarrow>
      (\<exists>info. App_GetReadReceiptInfoForPost a s postId viewer = Inr info \<and>
         ReadReceipts info = filter (\<lambda>r. UserId r = viewer) (ReadReceipts info0) \<and>
         (primaryKey (PostReadReceipts s) \<longrightarrow> length (ReadReceipts info) \<le> 1)))"
proof (intro conjI impI)
  show "filterOwnReceipts viewer receipts [] = filter (\<lambda>r. UserId r = viewer) receipts"
    by (simp add: filterOwnReceipts_filter)
  show "filterOwnReceipts viewer [] [] = []" by simp
  show "length (filterOwnReceipts viewer receipts []) \<le> 1" if "distinct (map UserId receipts)"
    using that distinct_users_filter [of receipts viewer] by (simp add: filterOwnReceipts_filter)
next
  assume h: "EnableReadReceipts a \<and> GetUserReadReceiptSettings a viewer = Inr settings \<and>
      ShowOthersReceipts settings = ReadReceiptVisibilityNone a \<and>
      Store_GetReadReceiptInfo s postId = Inr info0"
  let ?info = "info0\<lparr>ReadReceipts := filter (\<lambda>r. UserId r = viewer) (ReadReceipts info0),
                  ReadCount := int (length (filter (\<lambda>r. UserId r = viewer) (ReadReceipts info0)))\<rparr>"
  from h have run: "App_GetReadReceiptInfoForPost a s postId viewer = Inr ?info"
    by (simp add: App_GetReadReceiptInfoForPost_def Let_def filterOwnReceipts_filter)
  from h have "Store_GetReadReceiptsForPost s postId = Inr (ReadReceipts info0)"
    by (simp add: GetReadReceiptInfo_fields(1))
  then have "primaryKey (PostReadReceipts s) \<longrightarrow> length (ReadReceipts ?info) \<le> 1"
    using GetReadReceiptsForPost_own [of s postId "ReadReceipts info0" viewer] by simp
  with run show "\<exists>info. App_GetReadReceiptInfoForPost a s postId viewer = Inr info \<and>
         ReadReceipts info = filter (\<lambda>r. UserId r = viewer) (ReadReceipts info0) \<and>
         (primaryKey (PostReadReceipts s) \<longrightarrow> length (ReadReceipts info) \<le> 1)"
    by simp
qed

theorem privacy_filter_ShowNone_witness:
  "EnableReadReceipts exApp \<and>
   GetUserReadReceiptSettings exApp ''u1'' =
     Inr \<lparr>ReceiptMode = ''enabled'', ShowOthersReceipts = ''none''\<rparr> \<and>
   ''none'' = ReadReceiptVisibilityNone exApp \<and>
   Store_GetReadReceiptInfo exStoreRead ''p1'' = Inr exInfoStored \<and>
   primaryKey (PostReadReceipts exStoreRead) \<and>
   distinct (map UserId (ReadReceipts exInfoStored)) \<and>
   filterOwnReceipts ''u1'' (ReadReceipts exInfoStored) [] = [exReceipt ''p1'' ''u1'' 1000] \<and>
   length (filterOwnReceipts ''u1'' (ReadReceipts exInfoStored) []) \<le> 1 \<and>
   (\<exists>info. App_GetReadReceiptInfoForPost exApp exStoreRead ''p1'' ''u1'' = Inr info \<and>
      ReadReceipts info = [exReceipt ''p1'' ''u1'' 1000] \<and> length (ReadReceipts info) \<le> 1)"
proof -
  let ?settings = "\<lparr>ReceiptMode = ''enabled'', ShowOthersReceipts = ''none''\<rparr>"
  have h1: "EnableReadReceipts exApp" by (simp add: exApp_def)
  have h3: "ShowOthersReceipts ?settings = ReadReceiptVisibilityNone exApp" by (simp add: exApp_def)
  have pk: "primaryKey (PostReadReceipts exStoreRead)"
    by (simp add: primaryKey_def receiptKey_def exStoreRead_def exStore_def exReceipt_def)
  have d: "distinct (map UserId (ReadReceipts exInfoStored))"
    by (simp add: exInfoStored_def exReceipt_def)
  have own: "filter (\<lambda>r. UserId r = ''u1'') (ReadReceipts exInfoStored) = [exReceipt ''p1'' ''u1'' 1000]"
    by (simp add: exInfoStored_def exReceipt_def)
  note t = privacy_filter_ShowNone
    [of "''u1''" "ReadReceipts exInfoStored" exApp ?settings exStoreRead "''p1''" exInfoStored]
  from t d own have a: "filterOwnReceipts ''u1'' (ReadReceipts exInfoStored) [] = [exReceipt ''p1'' ''u1'' 1000]"
    and b: "length (filterOwnReceipts ''u1'' (ReadReceipts exInfoStored) []) \<le> 1"
    by simp_all
  from t h1 h3 exApp_u1_settings exInfoStored_run pk own
  have c: "\<exists>info. App_GetReadReceiptInfoForPost exApp exStoreRead ''p1'' ''u1'' = Inr info \<and>
      ReadReceipts info = [exReceipt ''p1'' ''u1'' 1000] \<and> length (ReadReceipts info) \<le> 1"
    by auto
  from h1 h3 exApp_u1_settings exInfoStored_run pk d a b c show ?thesis by simp
qed

lemma sorted_key_bounds:
  fixes f :: "'a \<Rightarrow> int"
  shows "sorted (map f ys) \<Longrightarrow> x \<in> set ys \<Longrightarrow> f (hd ys) \<le> f x \<and> f x \<le> f (last ys)"
proof (induction ys)
  case Nil
  then show ?case by simp
next
  case (Cons y ys)
  show ?case
  proof (cases "ys = []")
    case True
    with Cons.prems show ?thesis by simp
  next
    case False
    then have l: "last ys \<in> set ys" by simp
    from Cons.prems have le: "\<forall>z\<in>set ys. f y \<le> f z" and srt: "sorted (map f ys)" by auto
    show ?thesis
    proof (cases "x = y")
      case True
      with le l False show ?thesis by simp
    next
      case neq: False
      with Cons.prems have "x \<in> set ys" by simp
      with Cons.IH [OF srt] le False show ?thesis by simp
    qed
  qed
qed

lemma sorted_desc_bounds:
  assumes "x \<in> set (sort_key (\<lambda>r. - ReadAt r) xs)"
  shows "ReadAt (last (sort_key (\<lambda>r. - ReadAt r) xs)) \<le> ReadAt x"
    and "ReadAt x \<le> ReadAt (hd (sort_key (\<lambda>r. - ReadAt r) xs))"
  using sorted_key_bounds [OF sorted_sort_key assms] by simp_all

text \<open>
  C10. When the viewer has set \<^verbatim>\<open>show_others_receipts\<close> to none, the returned info is
  the store's info with \<^verbatim>\<open>ReadReceipts\<close> and \<^verbatim>\<open>ReadCount\<close> replaced and nothing else:
  \<^verbatim>\<open>TotalUsers\<close>, \<^verbatim>\<open>AllRead\<close>, \<^verbatim>\<open>PartiallyRead\<close>, \<^verbatim>\<open>FirstRead\<close> and \<^verbatim>\<open>LastRead\<close>
  are the store's. The flags are those of the unfiltered number of receipts, and
  \<^verbatim>\<open>FirstRead\<close> and \<^verbatim>\<open>LastRead\<close> bound the read time of every receipt of the post,
  also of those the viewer is not shown.
\<close>

theorem GetReadReceiptInfoForPost_ShowNone_frame:
  assumes run: "App_GetReadReceiptInfoForPost a s postId viewer = Inr info"
    and st: "GetUserReadReceiptSettings a viewer = Inr settings"
    and none: "ShowOthersReceipts settings = ReadReceiptVisibilityNone a"
  shows "\<exists>info0. Store_GetReadReceiptInfo s postId = Inr info0 \<and>
     info = info0\<lparr>ReadReceipts := filter (\<lambda>r. UserId r = viewer) (ReadReceipts info0),
                  ReadCount := int (length (filter (\<lambda>r. UserId r = viewer) (ReadReceipts info0)))\<rparr> \<and>
     TotalUsers info = TotalUsers info0 \<and> AllRead info = AllRead info0 \<and>
     PartiallyRead info = PartiallyRead info0 \<and> FirstRead info = FirstRead info0 \<and>
     LastRead info = LastRead info0 \<and>
     AllRead info = (int (length (ReadReceipts info0)) \<ge> TotalUsers info) \<and>
     PartiallyRead info =
       (0 < length (ReadReceipts info0) \<and> int (length (ReadReceipts info0)) < TotalUsers info) \<and>
     (\<forall>r\<in>set (ReadReceipts info0). FirstRead info \<le> ReadAt r \<and> ReadAt r \<le> LastRead info)"
proof -
  from GetReadReceiptInfoForPost_cases [OF run] st none obtain info0 where
    i0: "Store_GetReadReceiptInfo s postId = Inr info0" and
    info: "info = info0\<lparr>ReadReceipts := filter (\<lambda>r. UserId r = viewer) (ReadReceipts info0),
                  ReadCount := int (length (filter (\<lambda>r. UserId r = viewer) (ReadReceipts info0)))\<rparr>"
    by auto
  note f = GetReadReceiptInfo_fields [OF i0]
  from f(1) have sorted_list: "ReadReceipts info0 =
      sort_key (\<lambda>r. - ReadAt r) (filter (\<lambda>r. PostId r = postId) (PostReadReceipts s))"
    by (simp add: Store_GetReadReceiptsForPost_def split: if_splits)
  have bounds: "\<forall>r\<in>set (ReadReceipts info0). FirstRead info0 \<le> ReadAt r \<and> ReadAt r \<le> LastRead info0"
  proof
    fix r assume r: "r \<in> set (ReadReceipts info0)"
    then have ne: "ReadReceipts info0 \<noteq> []" by auto
    from r sorted_desc_bounds [of r "filter (\<lambda>r. PostId r = postId) (PostReadReceipts s)"]
    show "FirstRead info0 \<le> ReadAt r \<and> ReadAt r \<le> LastRead info0"
      using ne f(5,6) by (simp add: sorted_list [symmetric])
  qed
  have frame: "TotalUsers info = TotalUsers info0" "AllRead info = AllRead info0"
     "PartiallyRead info = PartiallyRead info0" "FirstRead info = FirstRead info0"
     "LastRead info = LastRead info0"
    by (simp_all add: info)
  show ?thesis
    apply (rule exI [of _ info0])
    using i0 info frame f(2,3,4) bounds by auto
qed

theorem GetReadReceiptInfoForPost_ShowNone_frame_witness:
  "App_GetReadReceiptInfoForPost exApp exStoreRead ''p1'' ''u1'' = Inr exInfoFiltered \<and>
   GetUserReadReceiptSettings exApp ''u1'' =
     Inr \<lparr>ReceiptMode = ''enabled'', ShowOthersReceipts = ''none''\<rparr> \<and>
   ''none'' = ReadReceiptVisibilityNone exApp \<and>
   Store_GetReadReceiptInfo exStoreRead ''p1'' = Inr exInfoStored \<and>
   ReadCount exInfoStored = 2 \<and> ReadCount exInfoFiltered = 1 \<and>
   TotalUsers exInfoFiltered = TotalUsers exInfoStored \<and>
   AllRead exInfoFiltered = AllRead exInfoStored \<and>
   PartiallyRead exInfoFiltered = PartiallyRead exInfoStored \<and>
   FirstRead exInfoFiltered = FirstRead exInfoStored \<and>
   LastRead exInfoFiltered = LastRead exInfoStored \<and>
   LastRead exInfoFiltered = 2000"
proof -
  let ?settings = "\<lparr>ReceiptMode = ''enabled'', ShowOthersReceipts = ''none''\<rparr>"
  have h3: "ShowOthersReceipts ?settings = ReadReceiptVisibilityNone exApp" by (simp add: exApp_def)
  from GetReadReceiptInfoForPost_ShowNone_frame [OF exInfoFiltered_run exApp_u1_settings h3]
    exInfoStored_run
  have "TotalUsers exInfoFiltered = TotalUsers exInfoStored \<and>
   AllRead exInfoFiltered = AllRead exInfoStored \<and>
   PartiallyRead exInfoFiltered = PartiallyRead exInfoStored \<and>
   FirstRead exInfoFiltered = FirstRead exInfoStored \<and>
   LastRead exInfoFiltered = LastRead exInfoStored"
    by auto
  moreover have "ReadCount exInfoStored = 2" "ReadCount exInfoFiltered = 1" "LastRead exInfoFiltered = 2000"
    by (simp_all add: exInfoStored_def exInfoFiltered_def)
  ultimately show ?thesis
    using exInfoFiltered_run exApp_u1_settings h3 exInfoStored_run by simp
qed

section \<open>Refreshing a summary\<close>

lemma find_upsertSummary:
  "find (\<lambda>x. sum_PostId x = p) rows = Some y \<Longrightarrow>
   upsertSummary (y\<lparr>LastUpdated := t\<rparr>) rows = rows' \<Longrightarrow>
   find (\<lambda>x. sum_PostId x = p) rows' = Some (y\<lparr>LastUpdated := t\<rparr>) \<and>
   upsertSummary (y\<lparr>LastUpdated := t\<rparr>) rows' = rows'"
proof (induction rows arbitrary: rows')
  case Nil
  then show ?case by simp
next
  case (Cons x xs)
  show ?case
  proof (cases "sum_PostId x = p")
    case True
    with Cons.prems(1) have "y = x" by simp
    with True Cons.prems(2) show ?thesis by auto
  next
    case False
    with Cons.prems(1) have f: "find (\<lambda>x. sum_PostId x = p) xs = Some y" by simp
    then have yp: "sum_PostId y = p" by (auto simp: find_Some_iff)
    with False Cons.prems(2) have r': "rows' = x # upsertSummary (y\<lparr>LastUpdated := t\<rparr>) xs" by auto
    from Cons.IH [OF f refl] False yp show ?thesis by (simp add: r')
  qed
qed

lemma GetReadReceiptSummary_PostId:
  "Store_GetReadReceiptSummary s postId = Inr summary \<Longrightarrow>
   find (\<lambda>x. sum_PostId x = postId) (PostReadReceiptSummaryRows s) = Some summary
   \<and> sum_PostId summary = postId \<and> \<not> Fails s (StmtGetReadReceiptSummary postId)"
  by (auto simp: Store_GetReadReceiptSummary_def find_Some_iff split: if_splits option.splits)

lemma exSummary_get: "Store_GetReadReceiptSummary exStoreRead ''p1'' = Inr exSummary"
  by (simp add: Store_GetReadReceiptSummary_def exStoreRead_def exStore_def exSummary_def)

lemma exSummary_refreshed:
  "Store_GetReadReceiptSummary (App_UpdateReadReceiptSummaryAsync exApp exStoreRead ''c1'' ''p1'') ''p1'' =
     Inr (exSummary\<lparr>LastUpdated := 9000\<rparr>)"
  by (simp add: App_UpdateReadReceiptSummaryAsync_def Store_UpdateReadReceiptSummary_def
      Store_GetReadReceiptSummary_def exStoreRead_def exStore_def exSummary_def exApp_def)

text \<open>
  C4 as claimed: the refresh recomputes the read count and the first and last read time
  from the receipts of the post. It fails in \<open>exStoreRead\<close>: two receipts are stored for
  \<open>p1\<close>, read at 1000 and 2000, and after the refresh the summary of \<open>p1\<close> still has
  read count 0 and read times 0; only \<^verbatim>\<open>LastUpdated\<close> has moved to the clock's 9000.
\<close>

theorem UpdateReadReceiptSummaryAsync_recompute_counterexample:
  "Store_GetReadReceiptsForPost exStoreRead ''p1'' =
     Inr [exReceipt ''p1'' ''u2'' 2000, exReceipt ''p1'' ''u1'' 1000] \<and>
   Store_GetReadReceiptSummary
     (App_UpdateReadReceiptSummaryAsync exApp exStoreRead ''c1'' ''p1'') ''p1'' =
     Inr (exSummary\<lparr>LastUpdated := 9000\<rparr>) \<and>
   sum_ReadCount (exSummary\<lparr>LastUpdated := 9000\<rparr>) = 0 \<and>
   FirstReadAt (exSummary\<lparr>LastUpdated := 9000\<rparr>) = 0 \<and>
   LastReadAt (exSummary\<lparr>LastUpdated := 9000\<rparr>) = 0 \<and>
   sum_ReadCount (exSummary\<lparr>LastUpdated := 9000\<rparr>) \<noteq>
     int (length [exReceipt ''p1'' ''u2'' 2000, exReceipt ''p1'' ''u1'' 1000])"
  using exStoreRead_receipts exSummary_refreshed by (simp add: exSummary_def)

text \<open>
  C4, amended. \<^verbatim>\<open>UpdateReadReceiptSummaryAsync\<close> reads the stored summary row of the
  post. Without such a row (or when reading or writing fails) it leaves the store as it
  is. Otherwise it writes the row back with \<^verbatim>\<open>LastUpdated\<close> set to the current time and
  every other column as stored; the receipts are untouched, and a second refresh at the
  same clock value changes nothing more.
\<close>

theorem UpdateReadReceiptSummaryAsync_sets_LastUpdated_only:
  "((\<forall>summary. Store_GetReadReceiptSummary s postId \<noteq> Inr summary) \<longrightarrow>
      App_UpdateReadReceiptSummaryAsync a s channelId postId = s)
   \<and> (Store_GetReadReceiptSummary s postId = Inr summary \<and>
      Fails s (StmtUpdateReadReceiptSummary postId) \<longrightarrow>
      App_UpdateReadReceiptSummaryAsync a s channelId postId = s)
   \<and> (Store_GetReadReceiptSummary s postId = Inr summary \<and>
      \<not> Fails s (StmtUpdateReadReceiptSummary postId) \<longrightarrow>
      Store_GetReadReceiptSummary (App_UpdateReadReceiptSummaryAsync a s channelId postId) postId =
        Inr (summary\<lparr>LastUpdated := GetMillis a\<rparr>) \<and>
      PostReadReceipts (App_UpdateReadReceiptSummaryAsync a s channelId postId) = PostReadReceipts s \<and>
      App_UpdateReadReceiptSummaryAsync a
        (App_UpdateReadReceiptSummaryAsync a s channelId postId) channelId postId =
        App_UpdateReadReceiptSummaryAsync a s channelId postId)"
proof (intro conjI impI)
  assume "\<forall>summary. Store_GetReadReceiptSummary s postId \<noteq> Inr summary"
  then show "App_UpdateReadReceiptSummaryAsync a s channelId postId = s"
    by (simp add: App_UpdateReadReceiptSummaryAsync_def split: sum.splits)
next
  assume h: "Store_GetReadReceiptSummary s postId = Inr summary \<and>
      Fails s (StmtUpdateReadReceiptSummary postId)"
  with GetReadReceiptSummary_PostId [of s postId summary]
  show "App_UpdateReadReceiptSummaryAsync a s channelId postId = s"
    by (simp add: App_UpdateReadReceiptSummaryAsync_def Store_UpdateReadReceiptSummary_def)
next
  assume h: "Store_GetReadReceiptSummary s postId = Inr summary \<and>
      \<not> Fails s (StmtUpdateReadReceiptSummary postId)"
  let ?new = "summary\<lparr>LastUpdated := GetMillis a\<rparr>"
  let ?rows' = "upsertSummary ?new (PostReadReceiptSummaryRows s)"
  let ?s' = "s\<lparr>PostReadReceiptSummaryRows := ?rows'\<rparr>"
  from h GetReadReceiptSummary_PostId [of s postId summary]
  have fnd: "find (\<lambda>x. sum_PostId x = postId) (PostReadReceiptSummaryRows s) = Some summary"
    and pid: "sum_PostId summary = postId"
    and ok: "\<not> Fails s (StmtGetReadReceiptSummary postId)"
    by simp_all
  from h pid have run: "App_UpdateReadReceiptSummaryAsync a s channelId postId = ?s'"
    by (simp add: App_UpdateReadReceiptSummaryAsync_def Store_UpdateReadReceiptSummary_def)
  from find_upsertSummary [OF fnd refl, of "GetMillis a"]
  have fnd': "find (\<lambda>x. sum_PostId x = postId) ?rows' = Some ?new"
    and again: "upsertSummary ?new ?rows' = ?rows'"
    by simp_all
  from fnd' ok have get': "Store_GetReadReceiptSummary ?s' postId = Inr ?new"
    by (simp add: Store_GetReadReceiptSummary_def)
  from get' h pid again have run': "App_UpdateReadReceiptSummaryAsync a ?s' channelId postId = ?s'"
    by (simp add: App_UpdateReadReceiptSummaryAsync_def Store_UpdateReadReceiptSummary_def)
  show "Store_GetReadReceiptSummary (App_UpdateReadReceiptSummaryAsync a s channelId postId) postId =
        Inr ?new"
    by (simp only: run get')
  show "PostReadReceipts (App_UpdateReadReceiptSummaryAsync a s channelId postId) = PostReadReceipts s"
    by (simp add: run)
  show "App_UpdateReadReceiptSummaryAsync a
        (App_UpdateReadReceiptSummaryAsync a s channelId postId) channelId postId =
        App_UpdateReadReceiptSummaryAsync a s channelId postId"
    by (simp only: run run')
qed

theorem UpdateReadReceiptSummaryAsync_sets_LastUpdated_only_witness:
  "Store_GetReadReceiptSummary exStoreRead ''p1'' = Inr exSummary \<and>
   \<not> Fails exStoreRead (StmtUpdateReadReceiptSummary ''p1'') \<and>
   Store_GetReadReceiptSummary
     (App_UpdateReadReceiptSummaryAsync exApp exStoreRead ''c1'' ''p1'') ''p1'' =
     Inr (exSummary\<lparr>LastUpdated := 9000\<rparr>) \<and>
   Store_GetReadReceiptSummary exStore ''p1'' = Inl (ErrNotFound ''PostReadReceiptSummary'' ''p1'') \<and>
   App_UpdateReadReceiptSummaryAsync exApp exStore ''c1'' ''p1'' = exStore"
proof -
  have ok: "\<not> Fails exStoreRead (StmtUpdateReadReceiptSummary ''p1'')"
    by (simp add: exStoreRead_def exStore_def)
  have now: "GetMillis exApp = 9000" by (simp add: exApp_def)
  have nf: "Store_GetReadReceiptSummary exStore ''p1'' = Inl (ErrNotFound ''PostReadReceiptSummary'' ''p1'')"
    by (simp add: Store_GetReadReceiptSummary_def exStore_def)
  then have none: "\<forall>summary. Store_GetReadReceiptSummary exStore ''p1'' \<noteq> Inr summary" by simp
  from UpdateReadReceiptSummaryAsync_sets_LastUpdated_only
    [of exStoreRead "''p1''" exApp "''c1''" exSummary] exSummary_get ok now
  have a: "Store_GetReadReceiptSummary
     (App_UpdateReadReceiptSummaryAsync exApp exStoreRead ''c1'' ''p1'') ''p1'' =
     Inr (exSummary\<lparr>LastUpdated := 9000\<rparr>)"
    by simp
  from UpdateReadReceiptSummaryAsync_sets_LastUpdated_only
    [of exStore "''p1''" exApp "''c1''" exSummary] none
  have b: "App_UpdateReadReceiptSummaryAsync exApp exStore ''c1'' ''p1'' = exStore"
    by blast
  from exSummary_get ok a nf b show ?thesis by simp
qed

section \<open>Deleting a receipt\<close>

text \<open>
  C7 as claimed: every permitted delete succeeds, removes the row and appends an audit
  entry with action \<open>privacy_view\<close>. It fails in \<open>exStoreAuditFailing\<close>, where the
  database refuses the audit insert: \<open>u1\<close> deletes the own receipt for \<open>p1\<close>, the call
  returns no error, the row is gone, and the audit log is as empty as before. The source
  does not look at what \<^verbatim>\<open>SaveReadReceiptAuditLog\<close> returns.
\<close>

theorem DeleteReadReceiptForPost_audit_counterexample:
  "ReadReceiptAuditLogRows exStoreAuditFailing = [] \<and>
   PostReadReceipts exStoreAuditFailing =
     [exReceipt ''p1'' ''u1'' 1000, exReceipt ''p1'' ''u2'' 2000] \<and>
   App_DeleteReadReceiptForPost exApp exStoreAuditFailing ''u1'' ''p1'' =
     (None, exStoreAuditFailing\<lparr>PostReadReceipts := [exReceipt ''p1'' ''u2'' 2000]\<rparr>) \<and>
   ReadReceiptAuditLogRows
     (exStoreAuditFailing\<lparr>PostReadReceipts := [exReceipt ''p1'' ''u2'' 2000]\<rparr>) = []"
  by (simp add: App_DeleteReadReceiptForPost_def Store_DeleteReadReceipt_def
      Store_SaveReadReceiptAuditLog_def exStoreAuditFailing_def exStoreRead_def exStore_def
      exReceipt_def exApp_def Let_def)

text \<open>
  C7, amended. With the feature enabled and privacy deletion allowed, and the database
  executing the delete statement, \<^verbatim>\<open>DeleteReadReceiptForPost\<close> returns no error, whether
  or not a receipt of that user for that post exists. Afterwards no row has that key and
  the other rows are as before (all rows, when there was nothing to delete). When the
  database executes the audit insert as well, exactly one entry has been appended to the
  audit log, with action \<open>privacy_view\<close>, the user, the post and the current time; when
  it does not, the call returns no error all the same and the audit log is unchanged.
\<close>

theorem DeleteReadReceiptForPost_succeeds_without_receipt:
  assumes "EnableReadReceipts a" and "ReadReceiptsAllowPrivacyDeletion a"
    and "\<not> Fails s (StmtDeleteReadReceipt postId userId)"
  shows "\<exists>s'. App_DeleteReadReceiptForPost a s userId postId = (None, s') \<and>
     (\<forall>r\<in>set (PostReadReceipts s'). \<not> (PostId r = postId \<and> UserId r = userId)) \<and>
     PostReadReceipts s' =
       filter (\<lambda>r. \<not> (PostId r = postId \<and> UserId r = userId)) (PostReadReceipts s) \<and>
     ((\<forall>r\<in>set (PostReadReceipts s). \<not> (PostId r = postId \<and> UserId r = userId)) \<longrightarrow>
        PostReadReceipts s' = PostReadReceipts s) \<and>
     (\<not> Fails s (StmtSaveReadReceiptAuditLog (NewId a)) \<longrightarrow>
        (\<exists>audit. ReadReceiptAuditLogRows s' = ReadReceiptAuditLogRows s @ [audit] \<and>
           Action audit = ''privacy_view'' \<and> audit_UserId audit = userId \<and>
           audit_PostId audit = postId \<and> audit_CreateAt audit = GetMillis a)) \<and>
     (Fails s (StmtSaveReadReceiptAuditLog (NewId a)) \<longrightarrow>
        ReadReceiptAuditLogRows s' = ReadReceiptAuditLogRows s)"
proof -
  let ?rows = "filter (\<lambda>r. \<not> (PostId r = postId \<and> UserId r = userId)) (PostReadReceipts s)"
  let ?s1 = "s\<lparr>PostReadReceipts := ?rows\<rparr>"
  let ?audit = "\<lparr>audit_Id = NewId a, audit_UserId = userId, audit_PostId = postId,
                 Action = ReadReceiptActionPrivacyView,
                 Metadata = [(''action'', ''delete_receipt''), (''reason'', ''user_privacy_request'')],
                 audit_CreateAt = GetMillis a\<rparr>"
  let ?s' = "snd (Store_SaveReadReceiptAuditLog ?s1 ?audit)"
  from assms have run: "App_DeleteReadReceiptForPost a s userId postId = (None, ?s')"
    by (simp add: App_DeleteReadReceiptForPost_def Store_DeleteReadReceipt_def Let_def)
  have rows: "PostReadReceipts ?s' = ?rows"
    by (simp add: Store_SaveReadReceiptAuditLog_def)
  have same: "(\<forall>r\<in>set (PostReadReceipts s). \<not> (PostId r = postId \<and> UserId r = userId)) \<longrightarrow>
        PostReadReceipts ?s' = PostReadReceipts s"
  proof
    assume "\<forall>r\<in>set (PostReadReceipts s). \<not> (PostId r = postId \<and> UserId r = userId)"
    then have "?rows = PostReadReceipts s" by (simp add: filter_id_conv)
    with rows show "PostReadReceipts ?s' = PostReadReceipts s" by (simp only:)
  qed
  have gone: "\<forall>r\<in>set (PostReadReceipts ?s'). \<not> (PostId r = postId \<and> UserId r = userId)"
    unfolding rows by simp
  have audit: "\<not> Fails s (StmtSaveReadReceiptAuditLog (NewId a)) \<longrightarrow>
        (\<exists>audit. ReadReceiptAuditLogRows ?s' = ReadReceiptAuditLogRows s @ [audit] \<and>
           Action audit = ''privacy_view'' \<and> audit_UserId audit = userId \<and>
           audit_PostId audit = postId \<and> audit_CreateAt audit = GetMillis a)"
    by (simp add: Store_SaveReadReceiptAuditLog_def ReadReceiptActionPrivacyView_def)
  have no_audit: "Fails s (StmtSaveReadReceiptAuditLog (NewId a)) \<longrightarrow>
        ReadReceiptAuditLogRows ?s' = ReadReceiptAuditLogRows s"
    by (simp add: Store_SaveReadReceiptAuditLog_def)
  from run rows same gone audit no_audit show ?thesis by blast
qed

theorem DeleteReadReceiptForPost_succeeds_without_receipt_witness:
  "EnableReadReceipts exApp \<and> ReadReceiptsAllowPrivacyDeletion exApp \<and>
   \<not> Fails exStore (StmtDeleteReadReceipt ''p1'' ''u1'') \<and>
   \<not> Fails exStore (StmtSaveReadReceiptAuditLog (NewId exApp)) \<and>
   PostReadReceipts exStore = [] \<and>
   (\<exists>s'. App_DeleteReadReceiptForPost exApp exStore ''u1'' ''p1'' = (None, s') \<and>
      PostReadReceipts s' = [] \<and>
      (\<exists>audit. ReadReceiptAuditLogRows s' = [audit] \<and> Action audit = ''privacy_view'')) \<and>
   \<not> Fails exStoreRead (StmtDeleteReadReceipt ''p1'' ''u1'') \<and>
   \<not> Fails exStoreRead (StmtSaveReadReceiptAuditLog (NewId exApp)) \<and>
   PostReadReceipts exStoreRead = [exReceipt ''p1'' ''u1'' 1000, exReceipt ''p1'' ''u2'' 2000] \<and>
   (\<exists>s'. App_DeleteReadReceiptForPost exApp exStoreRead ''u1'' ''p1'' = (None, s') \<and>
      PostReadReceipts s' = [exReceipt ''p1'' ''u2'' 2000] \<and>
      (\<exists>audit. ReadReceiptAuditLogRows s' = [audit] \<and> Action audit = ''privacy_view'' \<and>
         audit_UserId audit = ''u1'' \<and> audit_PostId audit = ''p1''))"
proof -
  have h1: "EnableReadReceipts exApp" and h2: "ReadReceiptsAllowPrivacyDeletion exApp"
    by (simp_all add: exApp_def)
  have h3: "\<not> Fails exStore (StmtDeleteReadReceipt ''p1'' ''u1'')"
    and h4: "\<not> Fails exStore (StmtSaveReadReceiptAuditLog (NewId exApp))"
    and e: "PostReadReceipts exStore = []" "ReadReceiptAuditLogRows exStore = []"
    by (simp_all add: exStore_def)
  have g3: "\<not> Fails exStoreRead (StmtDeleteReadReceipt ''p1'' ''u1'')"
    and g4: "\<not> Fails exStoreRead (StmtSaveReadReceiptAuditLog (NewId exApp))"
    and g: "PostReadReceipts exStoreRead = [exReceipt ''p1'' ''u1'' 1000, exReceipt ''p1'' ''u2'' 2000]"
      "ReadReceiptAuditLogRows exStoreRead = []"
    by (simp_all add: exStoreRead_def exStore_def)
  have left: "filter (\<lambda>r. \<not> (PostId r = ''p1'' \<and> UserId r = ''u1''))
      [exReceipt ''p1'' ''u1'' 1000, exReceipt ''p1'' ''u2'' 2000] = [exReceipt ''p1'' ''u2'' 2000]"
    by (simp add: exReceipt_def)
  from DeleteReadReceiptForPost_succeeds_without_receipt [OF h1 h2 h3] h4 e
  have a: "\<exists>s'. App_DeleteReadReceiptForPost exApp exStore ''u1'' ''p1'' = (None, s') \<and>
      PostReadReceipts s' = [] \<and>
      (\<exists>audit. ReadReceiptAuditLogRows s' = [audit] \<and> Action audit = ''privacy_view'')"
    by auto
  from DeleteReadReceiptForPost_succeeds_without_receipt [OF h1 h2 g3]
  obtain s' where s': "App_DeleteReadReceiptForPost exApp exStoreRead ''u1'' ''p1'' = (None, s')"
    and rows: "PostReadReceipts s' =
       filter (\<lambda>r. \<not> (PostId r = ''p1'' \<and> UserId r = ''u1'')) (PostReadReceipts exStoreRead)"
    and au: "\<not> Fails exStoreRead (StmtSaveReadReceiptAuditLog (NewId exApp)) \<longrightarrow>
        (\<exists>audit. ReadReceiptAuditLogRows s' = ReadReceiptAuditLogRows exStoreRead @ [audit] \<and>
           Action audit = ''privacy_view'' \<and> audit_UserId audit = ''u1'' \<and>
           audit_PostId audit = ''p1'' \<and> audit_CreateAt audit = GetMillis exApp)"
    by blast
  from rows have rows': "PostReadReceipts s' = [exReceipt ''p1'' ''u2'' 2000]"
    by (simp only: g left)
  from au g4 g(2) have "\<exists>audit. ReadReceiptAuditLogRows s' = [audit] \<and>
      Action audit = ''privacy_view'' \<and> audit_UserId audit = ''u1'' \<and> audit_PostId audit = ''p1''"
    by auto
  with s' rows' have b: "\<exists>s'. App_DeleteReadReceiptForPost exApp exStoreRead ''u1'' ''p1'' = (None, s') \<and>
      PostReadReceipts s' = [exReceipt ''p1'' ''u2'' 2000] \<and>
      (\<exists>audit. ReadReceiptAuditLogRows s' = [audit] \<and> Action audit = ''privacy_view'' \<and>
         audit_UserId audit = ''u1'' \<and> audit_PostId audit = ''p1'')"
    by blast
  from h1 h2 h3 h4 e(1) a g3 g4 g(1) b show ?thesis by (simp only: simp_thms)
qed

section \<open>Backfilling a channel\<close>

lemma backfillPosts_set:
  "set (backfillPosts s channelId member posts acc) =
     set acc \<union> {backfillReceipt channelId member post |post.
        post \<in> set posts \<and> post_CreateAt post \<le> LastViewedAt member \<and>
        post_UserId post \<noteq> member_UserId member \<and>
        (\<forall>existing. Store_GetReadReceipt s (post_Id post) (member_UserId member) \<noteq> Inr existing)}"
proof (induction posts arbitrary: acc)
  case Nil
  then show ?case by simp
next
  case (Cons post posts)
  show ?case
    by (cases "Store_GetReadReceipt s (post_Id post) (member_UserId member)")
       (auto simp: Cons.IH)
qed

lemma backfillMembers_set:
  "set (backfillMembers s channelId members posts acc) =
     set acc \<union> {backfillReceipt channelId member post |member post.
        member \<in> set members \<and> LastViewedAt member \<noteq> 0 \<and>
        post \<in> set posts \<and> post_CreateAt post \<le> LastViewedAt member \<and>
        post_UserId post \<noteq> member_UserId member \<and>
        (\<forall>existing. Store_GetReadReceipt s (post_Id post) (member_UserId member) \<noteq> Inr existing)}"
proof (induction members arbitrary: acc)
  case Nil
  then show ?case by simp
next
  case (Cons member members)
  show ?case
    by (cases "LastViewedAt member = 0") (auto simp: Cons.IH backfillPosts_set)
qed

lemma GetReadReceipt_found:
  assumes ok: "\<not> Fails s (StmtGetReadReceipt postID userID)"
  shows "(\<forall>existing. Store_GetReadReceipt s postID userID \<noteq> Inr existing) \<longleftrightarrow>
   (postID, userID) \<notin> receiptKey ` set (PostReadReceipts s)"
proof (cases "find (\<lambda>r. PostId r = postID \<and> UserId r = userID) (PostReadReceipts s)")
  case None
  then have "(postID, userID) \<notin> receiptKey ` set (PostReadReceipts s)"
    by (auto simp: receiptKey_def find_None_iff image_iff)
  with None ok show ?thesis by (simp add: Store_GetReadReceipt_def)
next
  case (Some r)
  then have "r \<in> set (PostReadReceipts s)" "PostId r = postID" "UserId r = userID"
    by (auto simp: find_Some_iff)
  then have "(postID, userID) \<in> receiptKey ` set (PostReadReceipts s)"
    by (auto simp: receiptKey_def image_iff)
  with Some ok show ?thesis by (simp add: Store_GetReadReceipt_def)
qed

lemma SaveReadReceipt_frame:
  "Fails (snd (Store_SaveReadReceipt s now r)) = Fails s"
  by (simp add: Store_SaveReadReceipt_def Let_def)

lemma SaveReadReceipt_rows:
  "PostReadReceipts (snd (Store_SaveReadReceipt s now r)) =
     (if Fails s (StmtSaveReadReceipt (PostId r) (UserId r)) then PostReadReceipts s
      else upsertReceipt (PreSave now r) (PostReadReceipts s))"
  by (simp add: Store_SaveReadReceipt_def Let_def)

lemma saveBackfill_Fails: "Fails (saveBackfill s now rs) = Fails s"
  by (induction rs arbitrary: s) (simp_all add: SaveReadReceipt_frame)

lemma PreSave_receiptKey [simp]: "receiptKey (PreSave now r) = receiptKey r"
  by (simp add: receiptKey_def)

lemma upsertReceipt_key_set:
  "receiptKey ` set (upsertReceipt r xs) = insert (receiptKey r) (receiptKey ` set xs)"
  using upsertReceipt_keys [of r xs, THEN arg_cong, of set] by auto

lemma saveBackfill_keys:
  "receiptKey ` set (PostReadReceipts (saveBackfill s now rs)) =
     receiptKey ` set (PostReadReceipts s) \<union>
     {receiptKey r |r. r \<in> set rs \<and> \<not> Fails s (StmtSaveReadReceipt (PostId r) (UserId r))}"
proof (induction rs arbitrary: s)
  case Nil
  then show ?case by simp
next
  case (Cons r rs)
  let ?s1 = "snd (Store_SaveReadReceipt s now r)"
  have "receiptKey ` set (PostReadReceipts ?s1) =
      receiptKey ` set (PostReadReceipts s) \<union>
      (if Fails s (StmtSaveReadReceipt (PostId r) (UserId r)) then {} else {receiptKey r})"
    by (simp add: SaveReadReceipt_rows upsertReceipt_key_set)
  then show ?case
    by (auto simp: Cons.IH [of ?s1] SaveReadReceipt_frame)
qed

lemma upsertReceipt_member:
  "x \<in> set (upsertReceipt r xs) \<Longrightarrow>
   x \<in> set xs \<or> (receiptKey x = receiptKey r \<and> ReadAt x = ReadAt r)"
  by (induction xs) (auto simp: receiptKey_def split: if_splits)

lemma saveBackfill_origin:
  "x \<in> set (PostReadReceipts (saveBackfill s now rs)) \<Longrightarrow>
   (\<exists>y\<in>set (PostReadReceipts s). receiptKey y = receiptKey x \<and> ReadAt x = ReadAt y) \<or>
   (\<exists>r\<in>set rs. receiptKey r = receiptKey x \<and> ReadAt x = ReadAt (PreSave now r) \<and>
      \<not> Fails s (StmtSaveReadReceipt (PostId r) (UserId r)))"
proof (induction rs arbitrary: s)
  case Nil
  then show ?case by auto
next
  case (Cons r rs)
  let ?s1 = "snd (Store_SaveReadReceipt s now r)"
  from Cons.prems have "x \<in> set (PostReadReceipts (saveBackfill ?s1 now rs))" by simp
  from Cons.IH [OF this] consider
    (old) y where "y \<in> set (PostReadReceipts ?s1)" "receiptKey y = receiptKey x" "ReadAt x = ReadAt y"
  | (new) r' where "r' \<in> set rs" "receiptKey r' = receiptKey x" "ReadAt x = ReadAt (PreSave now r')"
      "\<not> Fails s (StmtSaveReadReceipt (PostId r') (UserId r'))"
    by (auto simp: SaveReadReceipt_frame)
  then show ?case
  proof cases
    case old
    show ?thesis
    proof (cases "Fails s (StmtSaveReadReceipt (PostId r) (UserId r))")
      case True
      with old show ?thesis by (auto simp: SaveReadReceipt_rows)
    next
      case False
      with old(1) have "y \<in> set (upsertReceipt (PreSave now r) (PostReadReceipts s))"
        by (simp add: SaveReadReceipt_rows)
      from upsertReceipt_member [OF this] old(2,3) False show ?thesis
        by (auto simp: receiptKey_def)
    qed
  next
    case new
    then show ?thesis by auto
  qed
qed

lemma GetReadReceipt_none_iff:
  "(\<forall>existing. Store_GetReadReceipt s postID userID \<noteq> Inr existing) \<longleftrightarrow>
   (postID, userID) \<notin> receiptKey ` set (PostReadReceipts s) \<or>
   Fails s (StmtGetReadReceipt postID userID)"
proof (cases "Fails s (StmtGetReadReceipt postID userID)")
  case True
  then show ?thesis by (simp add: Store_GetReadReceipt_def)
next
  case False
  with GetReadReceipt_found [OF False] show ?thesis by simp
qed

lemma exBackfill_todo:
  "backfillMembers exStoreFailing ''c1'' exMembers [exPosts ! 0, exPosts ! 1, exPosts ! 3] [] =
     [exBackfill ''p1'', exBackfill ''p4'']"
  by (simp add: exMembers_def exPosts_def exBackfill_def backfillReceipt_def
      Store_GetReadReceipt_def exStoreFailing_def exStore_def)

lemma exBackfill_run_failing:
  "App_BackfillReadReceiptsForChannel exApp exStoreFailing ''c1'' =
     (None, exStoreFailing\<lparr>PostReadReceipts := [(exBackfill ''p4'')\<lparr>CreateAt := 9000\<rparr>]\<rparr>)"
  by (simp add: App_BackfillReadReceiptsForChannel_def allowedChannelType_def exApp_def
      exPosts_def exBackfill_def backfillReceipt_def Store_GetReadReceipt_def
      Store_SaveReadReceipt_def PreSave_def Let_def exStoreFailing_def exStore_def)

lemma exBackfill_run:
  "App_BackfillReadReceiptsForChannel exApp exStore ''c1'' =
     (None, exStore\<lparr>PostReadReceipts :=
        [(exBackfill ''p1'')\<lparr>CreateAt := 9000\<rparr>, (exBackfill ''p4'')\<lparr>CreateAt := 9000\<rparr>]\<rparr>)"
  by (simp add: App_BackfillReadReceiptsForChannel_def allowedChannelType_def exApp_def
      exPosts_def exBackfill_def backfillReceipt_def Store_GetReadReceipt_def
      Store_SaveReadReceipt_def PreSave_def Let_def exStore_def)

lemma exBackfill_run_lookup_failing:
  "App_BackfillReadReceiptsForChannel exApp exStoreLookupFailing ''c1'' =
     (None, exStoreLookupFailing\<lparr>PostReadReceipts :=
        [(exBackfill ''p1'')\<lparr>CreateAt := 9000\<rparr>, (exBackfill ''p4'')\<lparr>CreateAt := 9000\<rparr>]\<rparr>)"
  by (simp add: App_BackfillReadReceiptsForChannel_def allowedChannelType_def exApp_def
      exPosts_def exBackfill_def backfillReceipt_def Store_GetReadReceipt_def
      Store_SaveReadReceipt_def PreSave_def Let_def exStoreLookupFailing_def exStore_def
      exReceipt_def)

text \<open>
  C9 as claimed: a receipt is synthesized for a member and a post exactly when, besides
  the conditions on the times and the author, no receipt exists yet for the pair. It
  fails in \<open>exStoreLookupFailing\<close>: the receipt of \<open>u1\<close> for \<open>p1\<close>, read at 1000, is in
  the table, the lookup of it ends in an error, and the backfill of \<open>c1\<close> returns no
  error and has replaced that receipt by a synthesized one, read at 500.
\<close>

theorem Backfill_lookup_error_counterexample:
  "PostReadReceipts exStoreLookupFailing = [exReceipt ''p1'' ''u1'' 1000] \<and>
   Fails exStoreLookupFailing (StmtGetReadReceipt ''p1'' ''u1'') \<and>
   PostId (exBackfill ''p1'') = PostId (exReceipt ''p1'' ''u1'' 1000) \<and>
   UserId (exBackfill ''p1'') = UserId (exReceipt ''p1'' ''u1'' 1000) \<and>
   ReadAt (exBackfill ''p1'') = 500 \<and>
   App_BackfillReadReceiptsForChannel exApp exStoreLookupFailing ''c1'' =
     (None, exStoreLookupFailing\<lparr>PostReadReceipts :=
        [(exBackfill ''p1'')\<lparr>CreateAt := 9000\<rparr>, (exBackfill ''p4'')\<lparr>CreateAt := 9000\<rparr>]\<rparr>)"
  using exBackfill_run_lookup_failing
  by (simp add: exStoreLookupFailing_def exBackfill_def exReceipt_def)

text \<open>
  C9, amended. With the feature enabled, the channel eligible and its members and recent
  posts resolved, \<^verbatim>\<open>BackfillReadReceiptsForChannel\<close> returns no error, whatever the
  database does with the single writes. The receipts it synthesizes are exactly those of
  a member and a post where the member's \<^verbatim>\<open>LastViewedAt\<close> is not 0, the post was not
  created after it, the post is not the member's own, and either the table has no receipt
  for the pair or the lookup of that receipt failed; each carries the member's
  \<^verbatim>\<open>LastViewedAt\<close> as \<^verbatim>\<open>ReadAt\<close>. (The lookup returns no receipt in exactly these two
  cases.) Every synthesized receipt whose own write is executed has a row afterwards,
  also when writes of other receipts failed; and every row whose key is new in the table
  has the key and the \<^verbatim>\<open>ReadAt\<close> of a synthesized receipt.
\<close>

theorem Backfill_synthesizes_from_last_viewed:
  assumes en: "EnableReadReceipts a"
    and ch: "GetChannel a channelId = Inr channel" "allowedChannelType a channel"
    and mem: "GetChannelMembers a channelId 0 200 = Inr members"
    and pst: "GetPostsForChannel a channelId 0 60 = Inr posts"
  shows "\<exists>s'. App_BackfillReadReceiptsForChannel a s channelId = (None, s')
    \<and> (\<forall>r. r \<in> set (backfillMembers s channelId members posts []) \<longleftrightarrow>
         (\<exists>member\<in>set members. \<exists>post\<in>set posts.
            LastViewedAt member \<noteq> 0 \<and> post_CreateAt post \<le> LastViewedAt member \<and>
            post_UserId post \<noteq> member_UserId member \<and>
            ((post_Id post, member_UserId member) \<notin> receiptKey ` set (PostReadReceipts s) \<or>
             Fails s (StmtGetReadReceipt (post_Id post) (member_UserId member))) \<and>
            r = backfillReceipt channelId member post \<and> ReadAt r = LastViewedAt member))
    \<and> (\<forall>postID userID.
         (\<forall>existing. Store_GetReadReceipt s postID userID \<noteq> Inr existing) \<longleftrightarrow>
         (postID, userID) \<notin> receiptKey ` set (PostReadReceipts s) \<or>
         Fails s (StmtGetReadReceipt postID userID))
    \<and> (\<forall>r\<in>set (backfillMembers s channelId members posts []).
         \<not> Fails s (StmtSaveReadReceipt (PostId r) (UserId r)) \<longrightarrow>
         receiptKey r \<in> receiptKey ` set (PostReadReceipts s'))
    \<and> (\<forall>x\<in>set (PostReadReceipts s').
         receiptKey x \<notin> receiptKey ` set (PostReadReceipts s) \<longrightarrow>
         (\<exists>r\<in>set (backfillMembers s channelId members posts []).
            receiptKey r = receiptKey x \<and> ReadAt x = ReadAt r))"
proof -
  let ?todo = "backfillMembers s channelId members posts []"
  let ?s' = "saveBackfill s (GetMillis a) ?todo"
  from assms have run: "App_BackfillReadReceiptsForChannel a s channelId = (None, ?s')"
    by (simp add: App_BackfillReadReceiptsForChannel_def)
  have ra: "ReadAt (backfillReceipt channelId member post) = LastViewedAt member" for member post
    by (simp add: backfillReceipt_def)
  have cand: "\<forall>r. r \<in> set ?todo \<longleftrightarrow>
         (\<exists>member\<in>set members. \<exists>post\<in>set posts.
            LastViewedAt member \<noteq> 0 \<and> post_CreateAt post \<le> LastViewedAt member \<and>
            post_UserId post \<noteq> member_UserId member \<and>
            ((post_Id post, member_UserId member) \<notin> receiptKey ` set (PostReadReceipts s) \<or>
             Fails s (StmtGetReadReceipt (post_Id post) (member_UserId member))) \<and>
            r = backfillReceipt channelId member post \<and> ReadAt r = LastViewedAt member)"
    unfolding backfillMembers_set GetReadReceipt_none_iff using ra by simp blast
  have look: "\<forall>postID userID.
         (\<forall>existing. Store_GetReadReceipt s postID userID \<noteq> Inr existing) \<longleftrightarrow>
         (postID, userID) \<notin> receiptKey ` set (PostReadReceipts s) \<or>
         Fails s (StmtGetReadReceipt postID userID)"
    using GetReadReceipt_none_iff by blast
  have written: "\<forall>r\<in>set ?todo. \<not> Fails s (StmtSaveReadReceipt (PostId r) (UserId r)) \<longrightarrow>
         receiptKey r \<in> receiptKey ` set (PostReadReceipts ?s')"
    by (auto simp: saveBackfill_keys)
  have nonzero: "ReadAt r \<noteq> 0" if "r \<in> set ?todo" for r
    using that cand by auto
  have origin: "\<forall>x\<in>set (PostReadReceipts ?s').
         receiptKey x \<notin> receiptKey ` set (PostReadReceipts s) \<longrightarrow>
         (\<exists>r\<in>set ?todo. receiptKey r = receiptKey x \<and> ReadAt x = ReadAt r)"
  proof (intro ballI impI)
    fix x assume x: "x \<in> set (PostReadReceipts ?s')"
      and new: "receiptKey x \<notin> receiptKey ` set (PostReadReceipts s)"
    from saveBackfill_origin [OF x] new obtain r where
      r: "r \<in> set ?todo" "receiptKey r = receiptKey x" "ReadAt x = ReadAt (PreSave (GetMillis a) r)"
      by (auto simp: image_iff)
    from nonzero [OF r(1)] have "ReadAt (PreSave (GetMillis a) r) = ReadAt r"
      by (simp add: PreSave_def Let_def)
    with r show "\<exists>r\<in>set ?todo. receiptKey r = receiptKey x \<and> ReadAt x = ReadAt r" by auto
  qed
  from run cand look written origin show ?thesis by blast
qed

theorem Backfill_synthesizes_from_last_viewed_witness:
  "EnableReadReceipts exApp \<and>
   GetChannel exApp ''c1'' = Inr \<lparr>channel_Id = ''c1'', channel_Type = ChannelTypeDirect\<rparr> \<and>
   allowedChannelType exApp \<lparr>channel_Id = ''c1'', channel_Type = ChannelTypeDirect\<rparr> \<and>
   GetChannelMembers exApp ''c1'' 0 200 = Inr exMembers \<and>
   GetPostsForChannel exApp ''c1'' 0 60 = Inr [exPosts ! 0, exPosts ! 1, exPosts ! 3] \<and>
   backfillMembers exStoreFailing ''c1'' exMembers [exPosts ! 0, exPosts ! 1, exPosts ! 3] [] =
     [exBackfill ''p1'', exBackfill ''p4''] \<and>
   Fails exStoreFailing (StmtSaveReadReceipt ''p1'' ''u1'') \<and>
   \<not> Fails exStoreFailing (StmtSaveReadReceipt ''p4'' ''u1'') \<and>
   (\<exists>s'. App_BackfillReadReceiptsForChannel exApp exStoreFailing ''c1'' = (None, s') \<and>
      receiptKey (exBackfill ''p4'') \<in> receiptKey ` set (PostReadReceipts s')) \<and>
   App_BackfillReadReceiptsForChannel exApp exStoreFailing ''c1'' =
     (None, exStoreFailing\<lparr>PostReadReceipts := [(exBackfill ''p4'')\<lparr>CreateAt := 9000\<rparr>]\<rparr>) \<and>
   App_BackfillReadReceiptsForChannel exApp exStore ''c1'' =
     (None, exStore\<lparr>PostReadReceipts :=
        [(exBackfill ''p1'')\<lparr>CreateAt := 9000\<rparr>, (exBackfill ''p4'')\<lparr>CreateAt := 9000\<rparr>]\<rparr>) \<and>
   (''p1'', ''u1'') \<in> receiptKey ` set (PostReadReceipts exStoreLookupFailing) \<and>
   Fails exStoreLookupFailing (StmtGetReadReceipt ''p1'' ''u1'') \<and>
   backfillReceipt ''c1'' (exMembers ! 0) (exPosts ! 0) \<in>
     set (backfillMembers exStoreLookupFailing ''c1'' exMembers
            [exPosts ! 0, exPosts ! 1, exPosts ! 3] [])"
proof -
  let ?channel = "\<lparr>channel_Id = ''c1'', channel_Type = ChannelTypeDirect\<rparr>"
  let ?posts = "[exPosts ! 0, exPosts ! 1, exPosts ! 3]"
  have h1: "EnableReadReceipts exApp" by (simp add: exApp_def)
  have h2: "GetChannel exApp ''c1'' = Inr ?channel" by (simp add: exApp_def)
  have h3: "allowedChannelType exApp ?channel" by (simp add: allowedChannelType_def)
  have h4: "GetChannelMembers exApp ''c1'' 0 200 = Inr exMembers"
    by (simp add: exApp_def exMembers_def)
  have h5: "GetPostsForChannel exApp ''c1'' 0 60 = Inr ?posts"
    by (simp add: exApp_def exPosts_def)
  have f1: "Fails exStoreFailing (StmtSaveReadReceipt ''p1'' ''u1'')"
    and f4: "\<not> Fails exStoreFailing (StmtSaveReadReceipt ''p4'' ''u1'')"
    by (simp_all add: exStoreFailing_def)
  have k: "PostId (exBackfill ''p4'') = ''p4''" "UserId (exBackfill ''p4'') = ''u1''"
    by (simp_all add: exBackfill_def)
  from Backfill_synthesizes_from_last_viewed [OF h1 h2 h3 h4 h5, of exStoreFailing]
  obtain s' where s': "App_BackfillReadReceiptsForChannel exApp exStoreFailing ''c1'' = (None, s')"
    and w: "\<forall>r\<in>set (backfillMembers exStoreFailing ''c1'' exMembers ?posts []).
         \<not> Fails exStoreFailing (StmtSaveReadReceipt (PostId r) (UserId r)) \<longrightarrow>
         receiptKey r \<in> receiptKey ` set (PostReadReceipts s')"
    by blast
  from w have "\<forall>r\<in>set [exBackfill ''p1'', exBackfill ''p4''].
         \<not> Fails exStoreFailing (StmtSaveReadReceipt (PostId r) (UserId r)) \<longrightarrow>
         receiptKey r \<in> receiptKey ` set (PostReadReceipts s')"
    by (simp only: exBackfill_todo)
  with f4 k have "receiptKey (exBackfill ''p4'') \<in> receiptKey ` set (PostReadReceipts s')"
    by simp
  with s' have c: "\<exists>s'. App_BackfillReadReceiptsForChannel exApp exStoreFailing ''c1'' = (None, s') \<and>
      receiptKey (exBackfill ''p4'') \<in> receiptKey ` set (PostReadReceipts s')"
    by blast
  have l1: "(''p1'', ''u1'') \<in> receiptKey ` set (PostReadReceipts exStoreLookupFailing)"
    and l2: "Fails exStoreLookupFailing (StmtGetReadReceipt ''p1'' ''u1'')"
    by (simp_all add: exStoreLookupFailing_def exStore_def exReceipt_def receiptKey_def)
  have m: "exMembers ! 0 \<in> set exMembers" "LastViewedAt (exMembers ! 0) \<noteq> 0"
    "member_UserId (exMembers ! 0) = ''u1''" "LastViewedAt (exMembers ! 0) = 500"
    by (simp_all add: exMembers_def)
  have q: "exPosts ! 0 \<in> set ?posts" "post_CreateAt (exPosts ! 0) = 400"
    "post_UserId (exPosts ! 0) = ''u2''" "post_Id (exPosts ! 0) = ''p1''"
    by (simp_all add: exPosts_def)
  from Backfill_synthesizes_from_last_viewed [OF h1 h2 h3 h4 h5, of exStoreLookupFailing]
  have iff: "\<forall>r. r \<in> set (backfillMembers exStoreLookupFailing ''c1'' exMembers ?posts []) \<longleftrightarrow>
         (\<exists>member\<in>set exMembers. \<exists>post\<in>set ?posts.
            LastViewedAt member \<noteq> 0 \<and> post_CreateAt post \<le> LastViewedAt member \<and>
            post_UserId post \<noteq> member_UserId member \<and>
            ((post_Id post, member_UserId member)
               \<notin> receiptKey ` set (PostReadReceipts exStoreLookupFailing) \<or>
             Fails exStoreLookupFailing (StmtGetReadReceipt (post_Id post) (member_UserId member))) \<and>
            r = backfillReceipt ''c1'' member post \<and> ReadAt r = LastViewedAt member)"
    by blast
  have ra: "ReadAt (backfillReceipt ''c1'' (exMembers ! 0) (exPosts ! 0)) = LastViewedAt (exMembers ! 0)"
    by (simp add: backfillReceipt_def)
  have d: "backfillReceipt ''c1'' (exMembers ! 0) (exPosts ! 0) \<in>
     set (backfillMembers exStoreLookupFailing ''c1'' exMembers ?posts [])"
    apply (rule iff [rule_format, THEN iffD2])
    apply (rule bexI [OF _ m(1)])
    apply (rule bexI [OF _ q(1)])
    using m q l2 ra by simp
  from h1 h2 h3 h4 h5 exBackfill_todo f1 f4 c exBackfill_run_failing exBackfill_run l1 l2 d
  show ?thesis by (simp only: simp_thms)
qed

end
